theory Spec2Isabelle
  imports Complex_Main "HOL-Library.Sublist" "HOL-Library.Char_ord" "HOL-Library.List_Lexorder"
begin

chapter \<open>The dashboard's data-fetch, mutation and authorization layer\<close>

text \<open>
  A shallow embedding of the request-scoped core of the invoice dashboard. The
  \<^verbatim>\<open>authorized\<close> callback of \<^verbatim>\<open>auth.config.ts\<close>, the read queries of
  \<^verbatim>\<open>app/lib/data.ts\<close> and the page number computed by the invoices page are the
  source's. The server actions of the mutation pipeline are not part of the source, which
  only quotes tutorial text about them inside comments, and are modelled from the
  specification. Strings are character lists, the relational store is a record of row
  lists, a thrown exception is the \<open>Inl\<close> branch of a sum, and JavaScript numbers are
  IEEE-754 doubles given by their exact rational value.
\<close>

section \<open>Authorization gate\<close>

text \<open>
  \<^verbatim>\<open>auth\<close> is the session or null; its \<^verbatim>\<open>user\<close> may be missing.
\<close>

record session =
  user :: "string option"

text \<open>
  The callback returns \<^verbatim>\<open>true\<close>, \<^verbatim>\<open>false\<close> or
  \<^verbatim>\<open>Response.redirect(new URL(path, nextUrl))\<close>; the redirect is recorded by the
  path it is built from.
\<close>

datatype authorized_result = ReturnBool bool | ReturnRedirect string

text \<open>\<^verbatim>\<open>pages: { signIn: '/login' }\<close>\<close>

definition signIn :: string where
  "signIn = ''/login''"

text \<open>\<^verbatim>\<open>String.prototype.startsWith\<close> with one argument.\<close>

definition startsWith :: "string \<Rightarrow> string \<Rightarrow> bool" where
  "startsWith s searchString = prefix searchString s"

text \<open>\<^verbatim>\<open>!!auth?.user\<close>\<close>

definition isLoggedIn :: "session option \<Rightarrow> bool" where
  "isLoggedIn auth = (case auth of None \<Rightarrow> False | Some s \<Rightarrow> user s \<noteq> None)"

definition isOnDashboard :: "string \<Rightarrow> bool" where
  "isOnDashboard pathname = startsWith pathname ''/dashboard''"

definition authorized :: "session option \<Rightarrow> string \<Rightarrow> authorized_result" where
  "authorized auth pathname =
     (if isOnDashboard pathname then
        (if isLoggedIn auth then ReturnBool True
         else ReturnBool False)
      else if isLoggedIn auth then ReturnRedirect ''/dashboard''
      else ReturnBool True)"

text \<open>
  What the middleware makes of the callback's value: \<^verbatim>\<open>true\<close> lets the request
  through, \<^verbatim>\<open>false\<close> sends it to the sign-in page, a response is returned as it is.
\<close>

datatype gate_result = Allow | DenyRedirect string | RedirectAway string

fun gate :: "authorized_result \<Rightarrow> gate_result" where
  "gate (ReturnBool True) = Allow"
| "gate (ReturnBool False) = DenyRedirect signIn"
| "gate (ReturnRedirect target) = RedirectAway target"

text \<open>
  The decision table of the specification, row by row, over its three columns: session
  present, path under the protected prefix, path public. It is the specification's
  wording, to be compared with \<^const>\<open>authorized\<close>.
\<close>

definition spec_decision_table :: "bool \<Rightarrow> bool \<Rightarrow> bool \<Rightarrow> gate_result" where
  "spec_decision_table sessionPresent protected public =
     (if protected then (if sessionPresent then Allow else DenyRedirect signIn)
      else if public then (if sessionPresent then RedirectAway ''/dashboard'' else Allow)
      else Allow)"

text \<open>The public page the configuration names is the sign-in page.\<close>

definition spec_is_public :: "string \<Rightarrow> bool" where
  "spec_is_public pathname = (pathname = signIn)"

section \<open>JavaScript numbers\<close>

text \<open>
  A Number is NaN, an infinity or a finite double, kept by its exact rational value.
  The sign of a zero is not represented: \<open>-0\<close> compares equal to \<open>0\<close> and prints
  as \<^verbatim>\<open>0\<close>, which is all the code below can observe of it.
\<close>

datatype js_number = NaN | PosInf | NegInf | Fin rat

fun bit_length :: "nat \<Rightarrow> nat" where
  "bit_length n = (if n = 0 then 0 else Suc (bit_length (n div 2)))"

declare bit_length.simps [simp del]

definition pow2 :: "int \<Rightarrow> rat" where
  "pow2 k = (if 0 \<le> k then 2 ^ nat k else 1 / 2 ^ nat (- k))"

text \<open>The binary exponent \<open>e\<close> of a positive rational: \<open>2^e \<le> x < 2^(e+1)\<close>.\<close>

definition floor_log2 :: "rat \<Rightarrow> int" where
  "floor_log2 x =
     (if 1 \<le> x then int (bit_length (nat \<lfloor>x\<rfloor>)) - 1
      else
        (let k = int (bit_length (nat \<lfloor>1 / x\<rfloor>)) - 1
         in if x * pow2 k = 1 then - k else - k - 1))"

definition round_half_even :: "rat \<Rightarrow> int" where
  "round_half_even y =
     (let f = \<lfloor>y\<rfloor>; r = y - of_int f
      in if r < 1 / 2 then f else if 1 / 2 < r then f + 1
         else if even f then f else f + 1)"

text \<open>
  Rounding a positive rational to binary64, nearest with ties to even: 53 significant
  bits down to the exponent \<open>-1022\<close>, a fixed spacing of \<open>2^-1074\<close> below it.
\<close>

definition round_magnitude :: "rat \<Rightarrow> rat" where
  "round_magnitude x =
     (let quantum = pow2 (max (floor_log2 x) (- 1022) - 52)
      in of_int (round_half_even (x / quantum)) * quantum)"

definition to_double :: "rat \<Rightarrow> js_number" where
  "to_double x =
     (if x = 0 then Fin 0
      else if 0 < x then
        (let r = round_magnitude x in if pow2 1024 \<le> r then PosInf else Fin r)
      else
        (let r = round_magnitude (- x) in if pow2 1024 \<le> r then NegInf else Fin (- r)))"

text \<open>The operator \<^verbatim>\<open>*\<close> on Numbers.\<close>

fun js_mul :: "js_number \<Rightarrow> js_number \<Rightarrow> js_number" where
  "js_mul (Fin x) (Fin y) = to_double (x * y)"
| "js_mul NaN _ = NaN"
| "js_mul _ NaN = NaN"
| "js_mul (Fin x) PosInf = (if x = 0 then NaN else if 0 < x then PosInf else NegInf)"
| "js_mul (Fin x) NegInf = (if x = 0 then NaN else if 0 < x then NegInf else PosInf)"
| "js_mul PosInf (Fin y) = (if y = 0 then NaN else if 0 < y then PosInf else NegInf)"
| "js_mul NegInf (Fin y) = (if y = 0 then NaN else if 0 < y then NegInf else PosInf)"
| "js_mul PosInf PosInf = PosInf"
| "js_mul PosInf NegInf = NegInf"
| "js_mul NegInf PosInf = NegInf"
| "js_mul NegInf NegInf = PosInf"

text \<open>
  The operator \<^verbatim>\<open>/\<close> on Numbers. Every divisor in the code is a non-zero
  constant; for a zero divisor the sign of the result follows the dividend.
\<close>

fun js_div :: "js_number \<Rightarrow> js_number \<Rightarrow> js_number" where
  "js_div (Fin x) (Fin y) =
     (if y = 0 then (if x = 0 then NaN else if 0 < x then PosInf else NegInf)
      else to_double (x / y))"
| "js_div NaN _ = NaN"
| "js_div _ NaN = NaN"
| "js_div (Fin x) PosInf = Fin 0"
| "js_div (Fin x) NegInf = Fin 0"
| "js_div PosInf (Fin y) = (if 0 \<le> y then PosInf else NegInf)"
| "js_div NegInf (Fin y) = (if 0 \<le> y then NegInf else PosInf)"
| "js_div PosInf PosInf = NaN"
| "js_div PosInf NegInf = NaN"
| "js_div NegInf PosInf = NaN"
| "js_div NegInf NegInf = NaN"

text \<open>The operator \<^verbatim>\<open>-\<close> on Numbers.\<close>

fun js_sub :: "js_number \<Rightarrow> js_number \<Rightarrow> js_number" where
  "js_sub (Fin x) (Fin y) = to_double (x - y)"
| "js_sub NaN _ = NaN"
| "js_sub _ NaN = NaN"
| "js_sub (Fin x) PosInf = NegInf"
| "js_sub (Fin x) NegInf = PosInf"
| "js_sub PosInf (Fin y) = PosInf"
| "js_sub NegInf (Fin y) = NegInf"
| "js_sub PosInf PosInf = NaN"
| "js_sub PosInf NegInf = PosInf"
| "js_sub NegInf PosInf = NegInf"
| "js_sub NegInf NegInf = NaN"

text \<open>
  The operator \<^verbatim>\<open>||\<close> with a Number on its left: NaN and zero are falsy.
\<close>

definition js_or :: "js_number \<Rightarrow> js_number \<Rightarrow> js_number" where
  "js_or a b = (if a = NaN \<or> a = Fin 0 then b else a)"

text \<open>The comparison \<^verbatim>\<open>n > 0\<close> and \<^verbatim>\<open>n < 0\<close>; both are false of NaN.\<close>

definition greater_than_zero :: "js_number \<Rightarrow> bool" where
  "greater_than_zero n = (case n of Fin x \<Rightarrow> 0 < x | PosInf \<Rightarrow> True | _ \<Rightarrow> False)"

definition less_than_zero :: "js_number \<Rightarrow> bool" where
  "less_than_zero n = (case n of Fin x \<Rightarrow> x < 0 | NegInf \<Rightarrow> True | _ \<Rightarrow> False)"

text \<open>
  A rational that is the value of a finite double: rounding leaves it as it is.
\<close>

definition is_double :: "rat \<Rightarrow> bool" where
  "is_double x = (to_double x = Fin x)"

text \<open>\<^verbatim>\<open>Math.ceil\<close>\<close>

fun Math_ceil :: "js_number \<Rightarrow> js_number" where
  "Math_ceil (Fin x) = Fin (of_int \<lceil>x\<rceil>)"
| "Math_ceil n = n"

text \<open>
  The rounding the specification writes as \<open>round(dollars * 100)\<close>, which no function
  of the source calls: to the nearest integer, a half upwards, as \<^verbatim>\<open>Math.round\<close>.
\<close>

fun spec_round :: "js_number \<Rightarrow> js_number" where
  "spec_round (Fin x) = Fin (of_int \<lfloor>x + 1 / 2\<rfloor>)"
| "spec_round n = n"

section \<open>Strings and numeric literals\<close>

text \<open>
  A string is the list of its characters; characters are the code points below 256.
\<close>

definition is_digit :: "char \<Rightarrow> bool" where
  "is_digit c = (c \<in> set ''0123456789'')"

definition is_hex_digit :: "char \<Rightarrow> bool" where
  "is_hex_digit c = (c \<in> set ''0123456789abcdefABCDEF'')"

text \<open>The value of a digit: its position among the digits, letters in either case.\<close>

fun position :: "char \<Rightarrow> string \<Rightarrow> nat" where
  "position c [] = 0"
| "position c (d # ds) = (if c = d then 0 else Suc (position c ds))"

definition digit_value :: "char \<Rightarrow> nat" where
  "digit_value c =
     (if c \<in> set ''ABCDEF'' then 10 + position c ''ABCDEF''
      else position c ''0123456789abcdef'')"

definition digits_value :: "nat \<Rightarrow> string \<Rightarrow> nat" where
  "digits_value base ds = foldl (\<lambda>n c. base * n + digit_value c) 0 ds"

text \<open>
  \<open>StrWhiteSpaceChar\<close>: tab, line feed, vertical tab, form feed, carriage return,
  space and no-break space.
\<close>

definition StrWhiteSpaceChar :: "char \<Rightarrow> bool" where
  "StrWhiteSpaceChar c =
     (c \<in> set [CHR 0x09, CHR 0x0A, CHR 0x0B, CHR 0x0C, CHR 0x0D, CHR 0x20, CHR 0xA0])"

definition trim :: "string \<Rightarrow> string" where
  "trim s = rev (dropWhile StrWhiteSpaceChar (rev (dropWhile StrWhiteSpaceChar s)))"

datatype literal_value = NoParse | Infinite | Finite rat

definition scale10 :: "rat \<Rightarrow> int \<Rightarrow> rat" where
  "scale10 m e = (if 0 \<le> e then m * 10 ^ nat e else m / 10 ^ nat (- e))"

text \<open>\<open>ExponentPart\<close>, optional, up to the end of the literal.\<close>

definition ExponentPart :: "string \<Rightarrow> int option" where
  "ExponentPart s =
     (case s of
        [] \<Rightarrow> Some 0
      | c # r \<Rightarrow>
          if c = CHR ''e'' \<or> c = CHR ''E'' then
            (let negative = (r \<noteq> [] \<and> hd r = CHR ''-'');
                 ds = (if r \<noteq> [] \<and> (hd r = CHR ''-'' \<or> hd r = CHR ''+'') then tl r else r)
             in if ds \<noteq> [] \<and> list_all is_digit ds
                then Some (if negative then - int (digits_value 10 ds) else int (digits_value 10 ds))
                else None)
          else None)"

text \<open>
  \<open>StrUnsignedDecimalLiteral\<close>: \<^verbatim>\<open>Infinity\<close>, digits with an optional fraction
  and exponent, or a fraction that starts with the point.
\<close>

definition StrUnsignedDecimalLiteral :: "string \<Rightarrow> literal_value" where
  "StrUnsignedDecimalLiteral s =
     (if s = ''Infinity'' then Infinite
      else
        (let ip = takeWhile is_digit s; r = dropWhile is_digit s;
             dotted = (r \<noteq> [] \<and> hd r = CHR ''.'');
             fp = (if dotted then takeWhile is_digit (tl r) else []);
             ex = (if dotted then dropWhile is_digit (tl r) else r)
         in if ip = [] \<and> fp = [] then NoParse
            else
              (case ExponentPart ex of
                 None \<Rightarrow> NoParse
               | Some e \<Rightarrow>
                   Finite (scale10 (of_nat (digits_value 10 (ip @ fp))) (e - int (length fp))))))"

definition StrDecimalLiteral :: "string \<Rightarrow> literal_value" where
  "StrDecimalLiteral s =
     (case s of
        [] \<Rightarrow> NoParse
      | c # r \<Rightarrow>
          if c = CHR ''+'' then StrUnsignedDecimalLiteral r
          else if c = CHR ''-'' then
            (case StrUnsignedDecimalLiteral r of
               Finite v \<Rightarrow> Finite (- v)
             | other \<Rightarrow> other)
          else StrUnsignedDecimalLiteral s)"

text \<open>\<open>NonDecimalIntegerLiteral\<close>: \<^verbatim>\<open>0x\<close>, \<^verbatim>\<open>0o\<close>, \<^verbatim>\<open>0b\<close>, unsigned.\<close>

definition NonDecimalIntegerLiteral :: "string \<Rightarrow> rat option" where
  "NonDecimalIntegerLiteral s =
     (case s of
        z # x # ds \<Rightarrow>
          if z = CHR ''0'' \<and> ds \<noteq> [] then
            (if (x = CHR ''x'' \<or> x = CHR ''X'') \<and> list_all is_hex_digit ds
               then Some (of_nat (digits_value 16 ds))
             else if (x = CHR ''o'' \<or> x = CHR ''O'')
                     \<and> list_all (\<lambda>c. c \<in> set ''01234567'') ds
               then Some (of_nat (digits_value 8 ds))
             else if (x = CHR ''b'' \<or> x = CHR ''B'')
                     \<and> list_all (\<lambda>c. c = CHR ''0'' \<or> c = CHR ''1'') ds
               then Some (of_nat (digits_value 2 ds))
             else None)
          else None
      | _ \<Rightarrow> None)"

text \<open>
  \<open>StringToNumber\<close>: the value of \<^verbatim>\<open>Number(s)\<close> for a string. The empty and
  the all-blank string give \<open>0\<close>, a string that is no numeric literal gives NaN.
\<close>

definition StringToNumber :: "string \<Rightarrow> js_number" where
  "StringToNumber s =
     (let t = trim s
      in if t = [] then Fin 0
         else
           (case NonDecimalIntegerLiteral t of
              Some v \<Rightarrow> to_double v
            | None \<Rightarrow>
                (case StrDecimalLiteral t of
                   NoParse \<Rightarrow> NaN
                 | Infinite \<Rightarrow> (if hd t = CHR ''-'' then NegInf else PosInf)
                 | Finite v \<Rightarrow> to_double v)))"

text \<open>Decimal text of an integer, as the store prints a \<^verbatim>\<open>bigint\<close> or \<^verbatim>\<open>integer\<close>.\<close>

fun show_nat :: "nat \<Rightarrow> string" where
  "show_nat n =
     (if n < 10 then [''0123456789'' ! n]
      else show_nat (n div 10) @ [''0123456789'' ! (n mod 10)])"

declare show_nat.simps [simp del]

definition show_int :: "int \<Rightarrow> string" where
  "show_int i = (if i < 0 then CHR ''-'' # show_nat (nat (- i)) else show_nat (nat i))"

section \<open>The relational store\<close>

text \<open>
  Modelled from the spec: the schema is created by a seed script that is not part of the
  source. The specification gives \<^verbatim>\<open>customers(id, name, email, image_url)\<close> and
  \<^verbatim>\<open>invoices(id, customer_id, amount INTEGER, status TEXT, date DATE)\<close>; a date is
  kept by its ISO text \<^verbatim>\<open>YYYY-MM-DD\<close>.
\<close>

record customer =
  cust_id :: string
  cust_name :: string
  cust_email :: string
  cust_image_url :: string

record invoice =
  inv_id :: string
  inv_customer_id :: string
  inv_amount :: int
  inv_status :: string
  inv_date :: string

text \<open>
  \<open>reachable\<close> is the state of the connection behind the module-level \<^verbatim>\<open>sql\<close>
  handle: while it is down every statement throws.
\<close>

record database =
  reachable :: bool
  customers :: "customer list"
  invoices :: "invoice list"

text \<open>
  What a function throws: the error of a failed statement, or the
  \<^verbatim>\<open>new Error(message)\<close> of a catch block.
\<close>

datatype error = DatabaseError | Error string

text \<open>
  A Number bound to a parameter of an \<^verbatim>\<open>INTEGER\<close> column travels as its decimal
  text; the store takes it when that text is an integer literal in the 32-bit range and
  fails the statement otherwise.
\<close>

definition sql_integer :: "js_number \<Rightarrow> int option" where
  "sql_integer n =
     (case n of
        Fin x \<Rightarrow>
          if of_int \<lfloor>x\<rfloor> = x \<and> - 2147483648 \<le> x \<and> x \<le> 2147483647 then Some \<lfloor>x\<rfloor>
          else None
      | _ \<Rightarrow> None)"

text \<open>
  A Number bound to \<^verbatim>\<open>LIMIT\<close> or \<^verbatim>\<open>OFFSET\<close> is read as a
  \<^verbatim>\<open>bigint\<close>: its text has to be an integer literal in the 64-bit range. A
  fraction, NaN and the infinities fail the statement.
\<close>

definition sql_bigint :: "js_number \<Rightarrow> int option" where
  "sql_bigint n =
     (case n of
        Fin x \<Rightarrow>
          if of_int \<lfloor>x\<rfloor> = x \<and> - 9223372036854775808 \<le> x \<and> x \<le> 9223372036854775807
          then Some \<lfloor>x\<rfloor>
          else None
      | _ \<Rightarrow> None)"

subsection \<open>Calendar dates\<close>

record calendar_date =
  year :: nat
  month :: nat
  day :: nat

definition leap_year :: "nat \<Rightarrow> bool" where
  "leap_year y = (y mod 4 = 0 \<and> (y mod 100 \<noteq> 0 \<or> y mod 400 = 0))"

definition days_in_month :: "nat \<Rightarrow> nat \<Rightarrow> nat" where
  "days_in_month y m =
     (if m = 2 then (if leap_year y then 29 else 28)
      else if m \<in> set [4, 6, 9, 11] then 30
      else 31)"

text \<open>A day of the calendar in the years 1 to 9999.\<close>

definition valid_date :: "calendar_date \<Rightarrow> bool" where
  "valid_date d =
     (1 \<le> year d \<and> year d \<le> 9999 \<and> 1 \<le> month d \<and> month d \<le> 12
      \<and> 1 \<le> day d \<and> day d \<le> days_in_month (year d) (month d))"

text \<open>
  A text bound to a parameter of a \<^verbatim>\<open>DATE\<close> column. Of the texts the pipeline
  can send, the store takes \<^verbatim>\<open>YYYY-MM-DD\<close> when it names a day of the calendar
  and fails the statement otherwise: a year of more than four digits, the year
  \<open>0000\<close>, a month 13 or a 30th of February are refused.
\<close>

definition sql_date :: "string \<Rightarrow> string option" where
  "sql_date s =
     (if length s \<noteq> 10 then None
      else
        (let y = take 4 s; m = take 2 (drop 5 s); d = drop 8 s
         in if s ! 4 = CHR ''-'' \<and> s ! 7 = CHR ''-'' \<and> list_all is_digit (y @ m @ d)
               \<and> valid_date \<lparr>year = digits_value 10 y, month = digits_value 10 m,
                              day = digits_value 10 d\<rparr>
            then Some s
            else None))"

text \<open>
  Modelled from the spec: the writes of the mutations are not in the source. The create
  mutation is a single \<^verbatim>\<open>INSERT\<close> of one invoice row. The store generates the
  identifier of the new row, \<open>new_id\<close>, and checks the amount against the
  \<^verbatim>\<open>INTEGER\<close> column and the date against the \<^verbatim>\<open>DATE\<close> column.
\<close>

definition sql_insert_invoice ::
  "database \<Rightarrow> string \<Rightarrow> string \<Rightarrow> js_number \<Rightarrow> string \<Rightarrow> string \<Rightarrow> error + database" where
  "sql_insert_invoice db new_id customer_id amount_cents status_text date =
     (if \<not> reachable db then Inl DatabaseError
      else
        (case (sql_integer amount_cents, sql_date date) of
           (Some cents, Some d) \<Rightarrow>
             Inr (db\<lparr>invoices := invoices db @
               [\<lparr>inv_id = new_id, inv_customer_id = customer_id, inv_amount = cents,
                 inv_status = status_text, inv_date = d\<rparr>]\<rparr>)
         | _ \<Rightarrow> Inl DatabaseError))"

text \<open>
  Modelled from the spec: the update mutation is a single \<^verbatim>\<open>UPDATE\<close> by id that
  replaces the customer, the amount and the status of the row together and leaves its
  date; with no row of that id it changes nothing and does not fail.
\<close>

definition sql_update_invoice ::
  "database \<Rightarrow> string \<Rightarrow> string \<Rightarrow> js_number \<Rightarrow> string \<Rightarrow> error + database" where
  "sql_update_invoice db id' customer_id amount_cents status_text =
     (if \<not> reachable db then Inl DatabaseError
      else
        (case sql_integer amount_cents of
           None \<Rightarrow> Inl DatabaseError
         | Some cents \<Rightarrow>
             Inr (db\<lparr>invoices :=
               map (\<lambda>i. if inv_id i = id'
                          then i\<lparr>inv_customer_id := customer_id, inv_amount := cents,
                                 inv_status := status_text\<rparr>
                          else i)
                 (invoices db)\<rparr>)))"

text \<open>
  Modelled from the spec: the delete mutation is a single \<^verbatim>\<open>DELETE\<close> by id; with
  no row of that id it changes nothing and does not fail.
\<close>

definition sql_delete_invoice :: "database \<Rightarrow> string \<Rightarrow> error + database" where
  "sql_delete_invoice db id' =
     (if \<not> reachable db then Inl DatabaseError
      else Inr (db\<lparr>invoices := filter (\<lambda>i. inv_id i \<noteq> id') (invoices db)\<rparr>))"

subsection \<open>Pattern matching and ordering\<close>

definition lower_char :: "char \<Rightarrow> char" where
  "lower_char c =
     (if c \<in> set ''ABCDEFGHIJKLMNOPQRSTUVWXYZ''
      then ''abcdefghijklmnopqrstuvwxyz'' ! position c ''ABCDEFGHIJKLMNOPQRSTUVWXYZ''
      else c)"

text \<open>
  \<^verbatim>\<open>LIKE\<close>: \<^verbatim>\<open>%\<close> matches any run of characters, \<^verbatim>\<open>_\<close> any one
  character, a backslash takes the next pattern character literally. The first argument
  is the pattern. The store rejects a pattern that ends in a lone backslash; the patterns
  of the queries end in \<^verbatim>\<open>%\<close>, so none does.
\<close>

fun like_match :: "string \<Rightarrow> string \<Rightarrow> bool" where
  "like_match [] t = (t = [])"
| "like_match (p # ps) t =
     (if p = CHR ''%'' then
        (like_match ps t \<or> (case t of [] \<Rightarrow> False | _ # t' \<Rightarrow> like_match (p # ps) t'))
      else if p = CHR ''_'' then
        (case t of [] \<Rightarrow> False | _ # t' \<Rightarrow> like_match ps t')
      else if p = CHR 0x5C then
        (case ps of
           [] \<Rightarrow> False
         | q # qs \<Rightarrow> (case t of [] \<Rightarrow> False | c # t' \<Rightarrow> c = q \<and> like_match qs t'))
      else
        (case t of [] \<Rightarrow> False | c # t' \<Rightarrow> c = p \<and> like_match ps t'))"

text \<open>\<^verbatim>\<open>text ILIKE pattern\<close>\<close>

definition ilike :: "string \<Rightarrow> string \<Rightarrow> bool" where
  "ilike t pattern = like_match (map lower_char pattern) (map lower_char t)"

text \<open>
  \<^verbatim>\<open>ORDER BY key DESC\<close>. The statement does not fix the order of rows with equal
  keys; they are kept in the order the scan meets them.
\<close>

fun insert_desc :: "('a \<Rightarrow> string) \<Rightarrow> 'a \<Rightarrow> 'a list \<Rightarrow> 'a list" where
  "insert_desc key r [] = [r]"
| "insert_desc key r (x # xs) =
     (if key x \<le> key r then r # x # xs else x # insert_desc key r xs)"

definition order_by_desc :: "('a \<Rightarrow> string) \<Rightarrow> 'a list \<Rightarrow> 'a list" where
  "order_by_desc key rows = foldr (insert_desc key) rows []"

subsection \<open>The statements of the read queries\<close>

text \<open>\<^verbatim>\<open>FROM invoices JOIN customers ON invoices.customer_id = customers.id\<close>\<close>

definition invoices_join_customers :: "database \<Rightarrow> (invoice \<times> customer) list" where
  "invoices_join_customers db =
     concat (map (\<lambda>i. map (\<lambda>c. (i, c))
                          (filter (\<lambda>c. inv_customer_id i = cust_id c) (customers db)))
                 (invoices db))"

text \<open>The \<^verbatim>\<open>WHERE\<close> clause shared by the invoice list and its page count.\<close>

definition invoice_filter :: "string \<Rightarrow> invoice \<times> customer \<Rightarrow> bool" where
  "invoice_filter query ic =
     (let pattern = ''%'' @ query @ ''%''
      in ilike (cust_name (snd ic)) pattern \<or>
         ilike (cust_email (snd ic)) pattern \<or>
         ilike (show_int (inv_amount (fst ic))) pattern \<or>
         ilike (inv_date (fst ic)) pattern \<or>
         ilike (inv_status (fst ic)) pattern)"

record InvoicesTable =
  row_id :: string
  row_amount :: int
  row_date :: string
  row_status :: string
  row_name :: string
  row_email :: string
  row_image_url :: string

definition select_invoices_table :: "invoice \<times> customer \<Rightarrow> InvoicesTable" where
  "select_invoices_table ic =
     \<lparr>row_id = inv_id (fst ic), row_amount = inv_amount (fst ic), row_date = inv_date (fst ic),
      row_status = inv_status (fst ic), row_name = cust_name (snd ic),
      row_email = cust_email (snd ic), row_image_url = cust_image_url (snd ic)\<rparr>"

text \<open>
  The rows of the filtered list before \<^verbatim>\<open>LIMIT\<close> and \<^verbatim>\<open>OFFSET\<close>:
  \<^verbatim>\<open>SELECT .. FROM invoices JOIN customers .. WHERE .. ORDER BY invoices.date DESC\<close>
\<close>

definition filtered_invoices_ordered :: "database \<Rightarrow> string \<Rightarrow> InvoicesTable list" where
  "filtered_invoices_ordered db query =
     map select_invoices_table
       (order_by_desc (\<lambda>ic. inv_date (fst ic))
          (filter (invoice_filter query) (invoices_join_customers db)))"

text \<open>
  The filtered list statement, with the Numbers bound to \<^verbatim>\<open>LIMIT\<close> and
  \<^verbatim>\<open>OFFSET\<close>. The store refuses one that is no \<^verbatim>\<open>bigint\<close> and one
  that is negative.
\<close>

definition sql_filtered_invoices ::
  "database \<Rightarrow> string \<Rightarrow> js_number \<Rightarrow> js_number \<Rightarrow> error + InvoicesTable list" where
  "sql_filtered_invoices db query limit offset =
     (if \<not> reachable db then Inl DatabaseError
      else
        (case (sql_bigint limit, sql_bigint offset) of
           (Some l, Some off) \<Rightarrow>
             if l < 0 \<or> off < 0 then Inl DatabaseError
             else Inr (take (nat l) (drop (nat off) (filtered_invoices_ordered db query)))
         | _ \<Rightarrow> Inl DatabaseError))"

text \<open>
  \<^verbatim>\<open>SELECT COUNT(*)\<close> under the same join and \<^verbatim>\<open>WHERE\<close> clause; the driver
  hands a \<^verbatim>\<open>bigint\<close> over as its decimal text.
\<close>

definition sql_count_filtered_invoices :: "database \<Rightarrow> string \<Rightarrow> error + string" where
  "sql_count_filtered_invoices db query =
     (if \<not> reachable db then Inl DatabaseError
      else Inr (show_nat (length (filter (invoice_filter query) (invoices_join_customers db)))))"

definition sql_invoice_by_id :: "database \<Rightarrow> string \<Rightarrow> error + invoice list" where
  "sql_invoice_by_id db id' =
     (if \<not> reachable db then Inl DatabaseError
      else Inr (filter (\<lambda>i. inv_id i = id') (invoices db)))"

text \<open>
  The three aggregates of \<^verbatim>\<open>fetchCardData\<close>. A column of a result row is its text
  or \<^verbatim>\<open>null\<close>; \<^verbatim>\<open>SUM\<close> over no rows is \<^verbatim>\<open>null\<close>.
\<close>

definition sql_count_invoices :: "database \<Rightarrow> error + string option" where
  "sql_count_invoices db =
     (if \<not> reachable db then Inl DatabaseError
      else Inr (Some (show_nat (length (invoices db)))))"

definition sql_count_customers :: "database \<Rightarrow> error + string option" where
  "sql_count_customers db =
     (if \<not> reachable db then Inl DatabaseError
      else Inr (Some (show_nat (length (customers db)))))"

definition sum_case_status :: "string \<Rightarrow> invoice list \<Rightarrow> string option" where
  "sum_case_status s rows =
     (if rows = [] then None
      else Some (show_int (sum_list (map (\<lambda>i. if inv_status i = s then inv_amount i else 0) rows))))"

definition sql_invoice_status :: "database \<Rightarrow> error + (string option \<times> string option)" where
  "sql_invoice_status db =
     (if \<not> reachable db then Inl DatabaseError
      else Inr (sum_case_status ''paid'' (invoices db), sum_case_status ''pending'' (invoices db)))"

section \<open>The data access layer\<close>

definition ITEMS_PER_PAGE :: int where
  "ITEMS_PER_PAGE = 6"

text \<open>
  \<^verbatim>\<open>const currentPage = Number(searchParams?.page) || 1\<close> of the invoices page,
  which hands the result to \<^verbatim>\<open>fetchFilteredInvoices\<close>. A missing parameter is
  \<^verbatim>\<open>undefined\<close>, whose Number is NaN.
\<close>

definition Page_currentPage :: "string option \<Rightarrow> js_number" where
  "Page_currentPage page =
     js_or (case page of None \<Rightarrow> NaN | Some s \<Rightarrow> StringToNumber s) (Fin 1)"

text \<open>
  \<^verbatim>\<open>fetchFilteredInvoices(query, currentPage)\<close>. The page number is a Number and
  the offset is computed in double arithmetic. The catch block logs and throws a new
  error; \<^verbatim>\<open>noStore()\<close> and the console are not modelled.
\<close>

definition fetchFilteredInvoices ::
  "database \<Rightarrow> string \<Rightarrow> js_number \<Rightarrow> error + InvoicesTable list" where
  "fetchFilteredInvoices db query currentPage =
     (let offset = js_mul (js_sub currentPage (Fin 1)) (Fin (of_int ITEMS_PER_PAGE))
      in case sql_filtered_invoices db query (Fin (of_int ITEMS_PER_PAGE)) offset of
           Inr rows \<Rightarrow> Inr rows
         | Inl e \<Rightarrow> Inl (Error ''Failed to fetch invoices.''))"

text \<open>
  \<^verbatim>\<open>fetchInvoicesPages(query)\<close>:
  \<^verbatim>\<open>Math.ceil(Number(count.rows[0].count) / ITEMS_PER_PAGE)\<close>
\<close>

definition fetchInvoicesPages :: "database \<Rightarrow> string \<Rightarrow> error + js_number" where
  "fetchInvoicesPages db query =
     (case sql_count_filtered_invoices db query of
        Inr count \<Rightarrow>
          (let totalPages = Math_ceil (js_div (StringToNumber count) (Fin (of_int ITEMS_PER_PAGE)))
           in Inr totalPages)
      | Inl e \<Rightarrow> Inl (Error ''Failed to fetch total number of invoices.''))"

record InvoiceForm =
  form_id :: string
  form_customer_id :: string
  form_amount :: js_number
  form_status :: string

text \<open>
  \<^verbatim>\<open>fetchInvoiceById(id)\<close>. \<open>None\<close> is \<^verbatim>\<open>undefined\<close>: the value of
  \<^verbatim>\<open>invoice[0]\<close> on an empty array, and the value of a call that leaves through
  the catch block, which logs the error and throws nothing.
\<close>

definition fetchInvoiceById :: "database \<Rightarrow> string \<Rightarrow> error + InvoiceForm option" where
  "fetchInvoiceById db id' =
     (case sql_invoice_by_id db id' of
        Inr rows \<Rightarrow>
          (let invoice =
                 map (\<lambda>i. \<lparr>form_id = inv_id i, form_customer_id = inv_customer_id i,
                            form_amount = js_div (Fin (of_int (inv_amount i))) (Fin 100),
                            form_status = inv_status i\<rparr>) rows
           in Inr (case invoice of [] \<Rightarrow> None | first # _ \<Rightarrow> Some first))
      | Inl e \<Rightarrow> Inr None)"

text \<open>A JavaScript value that is \<^verbatim>\<open>null\<close> or a string, and the operator \<^verbatim>\<open>??\<close>.\<close>

datatype js_value = Null | Str string

definition nullish :: "string option \<Rightarrow> string \<Rightarrow> js_value" where
  "nullish v d = (case v of None \<Rightarrow> Str d | Some s \<Rightarrow> Str s)"

text \<open>\<^verbatim>\<open>Number(v)\<close> on such a value.\<close>

fun Number :: "js_value \<Rightarrow> js_number" where
  "Number Null = Fin 0"
| "Number (Str s) = StringToNumber s"

record CardData =
  numberOfCustomers :: js_number
  numberOfInvoices :: js_number
  totalPaidInvoices :: string
  totalPendingInvoices :: string

text \<open>
  \<^verbatim>\<open>fetchCardData()\<close>. \<^verbatim>\<open>formatCurrency\<close> is imported from
  \<^verbatim>\<open>./utils\<close>, which is not part of the source, and is a parameter here.
  \<^verbatim>\<open>Promise.all\<close> rejects as soon as one of the three statements does.
\<close>

definition fetchCardData :: "(js_value \<Rightarrow> string) \<Rightarrow> database \<Rightarrow> error + CardData" where
  "fetchCardData formatCurrency db =
     (case (sql_count_invoices db, sql_count_customers db, sql_invoice_status db) of
        (Inr invoiceCount, Inr customerCount, Inr (paid, pending)) \<Rightarrow>
          (let numberOfInvoices = Number (nullish invoiceCount ''0'');
               numberOfCustomers = Number (nullish customerCount ''0'');
               totalPaidInvoices = formatCurrency (nullish paid ''0'');
               totalPendingInvoices = formatCurrency (nullish pending ''0'')
           in Inr \<lparr>numberOfCustomers = numberOfCustomers, numberOfInvoices = numberOfInvoices,
                    totalPaidInvoices = totalPaidInvoices,
                    totalPendingInvoices = totalPendingInvoices\<rparr>)
      | _ \<Rightarrow> Inl (Error ''Failed to card data.''))"

section \<open>The mutation pipeline\<close>

text \<open>
  Modelled from the spec: the schema check of the pipeline is not in the source. The raw
  input is a flat mapping of field name to string value. \<^verbatim>\<open>customerId\<close> has to be
  a non-empty string, \<^verbatim>\<open>amount\<close> has to coerce to a number strictly greater than
  0, \<^verbatim>\<open>status\<close> has to be \<^verbatim>\<open>pending\<close> or \<^verbatim>\<open>paid\<close>. The coercion
  of a string to a number is \<^const>\<open>StringToNumber\<close>; a missing field is no number.
\<close>

type_synonym field_map = "string \<Rightarrow> string option"

definition check_customerId :: "string option \<Rightarrow> string option" where
  "check_customerId v = (case v of Some s \<Rightarrow> if s \<noteq> [] then Some s else None | None \<Rightarrow> None)"

definition coerce_amount :: "string option \<Rightarrow> js_number" where
  "coerce_amount v = (case v of None \<Rightarrow> NaN | Some s \<Rightarrow> StringToNumber s)"

definition check_amount :: "string option \<Rightarrow> js_number option" where
  "check_amount v = (if greater_than_zero (coerce_amount v) then Some (coerce_amount v) else None)"

definition check_status :: "string option \<Rightarrow> string option" where
  "check_status v =
     (case v of Some s \<Rightarrow> if s \<in> set [''pending'', ''paid''] then Some s else None | None \<Rightarrow> None)"

record invoice_input =
  customerId :: string
  amount :: js_number
  status :: string

text \<open>
  Modelled from the spec: the field-level error map of a rejected input is not in the
  source. It has one message for each invalid field; the specification does not give the
  messages, so the map is kept by its keys, in the order of the schema.
\<close>

definition field_error :: "string \<Rightarrow> 'a option \<Rightarrow> string list" where
  "field_error field r = (case r of None \<Rightarrow> [field] | Some _ \<Rightarrow> [])"

definition validate :: "field_map \<Rightarrow> string list + invoice_input" where
  "validate raw =
     (let c = check_customerId (raw ''customerId'');
          a = check_amount (raw ''amount'');
          s = check_status (raw ''status'')
      in case (c, a, s) of
           (Some cv, Some av, Some sv) \<Rightarrow> Inr \<lparr>customerId = cv, amount = av, status = sv\<rparr>
         | _ \<Rightarrow>
             Inl (field_error ''customerId'' c @ field_error ''amount'' a
                  @ field_error ''status'' s))"

subsection \<open>The date of the call\<close>

definition pad :: "nat \<Rightarrow> nat \<Rightarrow> string" where
  "pad width n = replicate (width - length (show_nat n)) CHR ''0'' @ show_nat n"

text \<open>
  The ISO form of a date: \<^verbatim>\<open>YYYY-MM-DD\<close>, a sign and six digits for the year
  past 9999.
\<close>

definition iso_date :: "calendar_date \<Rightarrow> string" where
  "iso_date t =
     (if year t \<le> 9999 then pad 4 (year t) else CHR ''+'' # pad 6 (year t))
     @ ''-'' @ pad 2 (month t) @ ''-'' @ pad 2 (day t)"

subsection \<open>The three mutations\<close>

text \<open>
  What a mutation can touch: the store and the cached views it has marked stale. A
  mutation ends by returning, by telling the caller to navigate, by rejecting the input
  with its field errors, or by the error of the store.
\<close>

record world =
  store :: database
  stale :: "string list"

datatype outcome = Return | Redirect string | Rejected "string list" | Throw error

text \<open>The invoice list, the view the mutations invalidate and navigate to, by its route.\<close>

definition invoice_list :: string where
  "invoice_list = ''/dashboard/invoices''"

definition invalidate :: "string \<Rightarrow> world \<Rightarrow> world" where
  "invalidate view w = w\<lparr>stale := stale w @ [view]\<rparr>"

text \<open>
  Modelled from the spec: \<^verbatim>\<open>createInvoice\<close> is not in the source. The
  specification gives its steps: validate the field map, or reject it with the field
  errors and write nothing; convert the dollars to cents, \<open>round(amount * 100)\<close>, and
  take the current date in ISO form; insert one row; mark the invoice list stale; tell the
  caller to navigate to it. A failed write aborts before the last two steps. \<open>today\<close>
  is the date of the call and \<open>new_id\<close> the identifier the store gives the row.
\<close>

definition createInvoice ::
  "field_map \<Rightarrow> calendar_date \<Rightarrow> string \<Rightarrow> world \<Rightarrow> outcome \<times> world" where
  "createInvoice raw today new_id w =
     (case validate raw of
        Inl errors \<Rightarrow> (Rejected errors, w)
      | Inr input \<Rightarrow>
          (let cents = spec_round (js_mul (amount input) (Fin 100));
               date = iso_date today
           in case sql_insert_invoice (store w) new_id (customerId input) cents
                     (status input) date of
                Inl e \<Rightarrow> (Throw e, w)
              | Inr db \<Rightarrow> (Redirect invoice_list, invalidate invoice_list (w\<lparr>store := db\<rparr>))))"

text \<open>
  Modelled from the spec: \<^verbatim>\<open>updateInvoice\<close> is not in the source. The
  specification gives it the steps of the create mutation with an \<^verbatim>\<open>UPDATE\<close> by
  id that replaces the customer, the amount and the status together and leaves the date.
\<close>

definition updateInvoice :: "string \<Rightarrow> field_map \<Rightarrow> world \<Rightarrow> outcome \<times> world" where
  "updateInvoice id' raw w =
     (case validate raw of
        Inl errors \<Rightarrow> (Rejected errors, w)
      | Inr input \<Rightarrow>
          (let cents = spec_round (js_mul (amount input) (Fin 100))
           in case sql_update_invoice (store w) id' (customerId input) cents (status input) of
                Inl e \<Rightarrow> (Throw e, w)
              | Inr db \<Rightarrow> (Redirect invoice_list, invalidate invoice_list (w\<lparr>store := db\<rparr>))))"

text \<open>
  Modelled from the spec: \<^verbatim>\<open>deleteInvoice\<close> is not in the source. The
  specification gives it as a single \<^verbatim>\<open>DELETE\<close> by id followed by the cache
  invalidation of the invoice list, with no redirect, and has a failed write abort the
  pipeline before the invalidation.
\<close>

definition deleteInvoice :: "string \<Rightarrow> world \<Rightarrow> outcome \<times> world" where
  "deleteInvoice id' w =
     (case sql_delete_invoice (store w) id' of
        Inl e \<Rightarrow> (Throw e, w)
      | Inr db \<Rightarrow> (Return, invalidate invoice_list (w\<lparr>store := db\<rparr>)))"

section \<open>Sample data\<close>

text \<open>
  A customer, an invoice of 45 dollars, a store that holds both, a field map and a date.
\<close>

definition sample_customer :: customer where
  "sample_customer = \<lparr>cust_id = ''c1'', cust_name = ''Ada'', cust_email = ''ada@example.com'',
                       cust_image_url = ''/ada.png''\<rparr>"

definition sample_invoice :: invoice where
  "sample_invoice = \<lparr>inv_id = ''i1'', inv_customer_id = ''c1'', inv_amount = 4500,
                      inv_status = ''paid'', inv_date = ''2024-05-17''\<rparr>"

definition sample_world :: "bool \<Rightarrow> world" where
  "sample_world up =
     \<lparr>store = \<lparr>reachable = up, customers = [sample_customer], invoices = [sample_invoice]\<rparr>,
      stale = []\<rparr>"

definition sample_fields :: "string \<Rightarrow> field_map" where
  "sample_fields amount_text =
     map_of [(''customerId'', ''c1''), (''amount'', amount_text), (''status'', ''pending'')]"

definition sample_today :: calendar_date where
  "sample_today = \<lparr>year = 2024, month = 5, day = 17\<rparr>"

chapter \<open>Properties\<close>

section \<open>Evaluation rules\<close>

lemma floor_rat_numeral: "\<lfloor>(numeral a :: rat) / numeral b\<rfloor> = numeral a div numeral b"
  by (metis floor_divide_of_int_eq of_int_numeral)

lemma bit_length_0: "bit_length 0 = 0"
  by (simp add: bit_length.simps)

lemma bit_length_1: "bit_length 1 = 1"
  by (simp add: bit_length.simps)

lemma bit_length_Suc0: "bit_length (Suc 0) = 1"
  by (simp add: bit_length.simps)

lemma bit_length_numeral: "bit_length (numeral n) = Suc (bit_length (numeral n div 2))"
  by (subst bit_length.simps) simp

lemmas double_eval = to_double_def round_magnitude_def floor_log2_def pow2_def
  round_half_even_def Let_def floor_rat_numeral bit_length_0 bit_length_1 bit_length_Suc0
  bit_length_numeral

lemmas literal_eval = StringToNumber_def trim_def StrWhiteSpaceChar_def
  NonDecimalIntegerLiteral_def StrDecimalLiteral_def StrUnsignedDecimalLiteral_def
  ExponentPart_def scale10_def digits_value_def digit_value_def is_digit_def is_hex_digit_def

lemmas validate_eval = validate_def check_customerId_def check_amount_def check_status_def
  coerce_amount_def greater_than_zero_def field_error_def

lemma show_nat_small: "n < 10 \<Longrightarrow> show_nat n = [''0123456789'' ! n]"
  by (subst show_nat.simps) simp

lemma show_nat_large:
  "\<not> n < 10 \<Longrightarrow> show_nat n = show_nat (n div 10) @ [''0123456789'' ! (n mod 10)]"
  by (subst show_nat.simps) simp

lemma show_nat_numeral:
  "show_nat (numeral n) =
     (if numeral n < (10::nat) then [''0123456789'' ! numeral n]
      else show_nat (numeral n div 10) @ [''0123456789'' ! (numeral n mod 10)])"
  by (subst show_nat.simps) simp

lemma show_nat_0: "show_nat 0 = ''0''"
  by (simp add: show_nat_small)

lemma show_nat_1: "show_nat 1 = ''1''"
  by (simp add: show_nat_small)

lemma show_nat_Suc0: "show_nat (Suc 0) = ''1''"
  by (simp add: show_nat_small)

lemmas show_eval = show_nat_numeral show_nat_0 show_nat_1 show_nat_Suc0 show_int_def pad_def

section \<open>Decimal digits\<close>

lemma digit_nth: "k < 10 \<Longrightarrow> ''0123456789'' ! k \<in> set ''0123456789''"
  using nth_mem [of k "''0123456789''"] by simp

lemma show_nat_digits: "set (show_nat n) \<subseteq> set ''0123456789''"
proof (induction n rule: show_nat.induct)
  case (1 n)
  show ?case
  proof (cases "n < 10")
    case True
    then show ?thesis using digit_nth [of n] by (simp add: show_nat_small)
  next
    case False
    have "n mod 10 < 10" by simp
    then have "''0123456789'' ! (n mod 10) \<in> set ''0123456789''" by (rule digit_nth)
    with False 1 show ?thesis by (simp add: show_nat_large)
  qed
qed

section \<open>Authorization gate\<close>

lemma startsWith_append: "startsWith s p = (\<exists>rest. s = p @ rest)"
  by (auto simp: startsWith_def prefix_def)

lemma isOnDashboard_login: "\<not> isOnDashboard ''/login''"
  by (simp add: isOnDashboard_def startsWith_def)

text \<open>
  C1, as stated, fails: a signed-in request for \<^verbatim>\<open>/about\<close>, a path that is neither
  under \<^verbatim>\<open>/dashboard\<close> nor the sign-in page, is redirected to
  \<^verbatim>\<open>/dashboard\<close>, where the last row of the decision table says Allow.
\<close>

theorem authorized_decision_table_counterexample:
  "\<not> isOnDashboard ''/about'' \<and> \<not> spec_is_public ''/about''
   \<and> gate (authorized (Some \<lparr>user = Some ''alice''\<rparr>) ''/about'') = RedirectAway ''/dashboard''
   \<and> spec_decision_table (isLoggedIn (Some \<lparr>user = Some ''alice''\<rparr>))
         (isOnDashboard ''/about'') (spec_is_public ''/about'') = Allow"
  by (simp add: authorized_def isOnDashboard_def startsWith_def isLoggedIn_def
      spec_is_public_def signIn_def spec_decision_table_def)

text \<open>
  C1, amended: the gate follows the decision table with every path outside the protected
  prefix in the public column. Allow when the session is present and the path is under
  \<^verbatim>\<open>/dashboard\<close>; DenyRedirect(login) when the session is absent and the path is
  under \<^verbatim>\<open>/dashboard\<close>; for every other path, public or not, RedirectAway(home)
  when the session is present and Allow when it is absent.
\<close>

theorem authorized_decision_table_amended:
  "gate (authorized auth pathname) =
     spec_decision_table (isLoggedIn auth) (isOnDashboard pathname) (\<not> isOnDashboard pathname)"
  by (simp add: authorized_def spec_decision_table_def)

text \<open>
  C10: the protected-path test is plain string-prefix matching against
  \<^verbatim>\<open>/dashboard\<close>. Every path that begins with these ten characters, such as
  \<^verbatim>\<open>/dashboard-other\<close>, is treated as protected (let through with a session,
  refused without), and every path that does not begin with them sends a request that
  has a session to \<^verbatim>\<open>/dashboard\<close>.
\<close>

theorem authorized_prefix_matching:
  "isOnDashboard pathname = (\<exists>rest. pathname = ''/dashboard'' @ rest)
   \<and> (isOnDashboard pathname \<longrightarrow> authorized auth pathname = ReturnBool (isLoggedIn auth))
   \<and> (\<not> isOnDashboard pathname \<and> isLoggedIn auth
        \<longrightarrow> authorized auth pathname = ReturnRedirect ''/dashboard'')
   \<and> isOnDashboard ''/dashboard-other''"
  by (simp add: authorized_def isOnDashboard_def startsWith_append)

theorem authorized_prefix_matching_witness:
  "isOnDashboard ''/dashboard-other''
   \<and> authorized None ''/dashboard-other'' = ReturnBool False
   \<and> authorized (Some \<lparr>user = Some ''alice''\<rparr>) ''/dashboard-other'' = ReturnBool True
   \<and> \<not> isOnDashboard ''/login'' \<and> isLoggedIn (Some \<lparr>user = Some ''alice''\<rparr>)
   \<and> authorized (Some \<lparr>user = Some ''alice''\<rparr>) ''/login'' = ReturnRedirect ''/dashboard''"
  using authorized_prefix_matching [of "''/dashboard-other''" None]
    authorized_prefix_matching [of "''/dashboard-other''" "Some \<lparr>user = Some ''alice''\<rparr>"]
    authorized_prefix_matching [of "''/login''" "Some \<lparr>user = Some ''alice''\<rparr>"]
    isOnDashboard_login
  by (simp add: isLoggedIn_def)

section \<open>Counts as Numbers\<close>

lemma to_double_0: "to_double 0 = Fin 0"
  by (simp add: to_double_def)

lemma show_nat_nonempty: "show_nat n \<noteq> []"
  by (subst show_nat.simps) simp

lemma show_nat_all_digits: "list_all is_digit (show_nat n)"
  unfolding list_all_iff is_digit_def using show_nat_digits [of n] by blast

lemma digit_not_space: "is_digit c \<Longrightarrow> \<not> StrWhiteSpaceChar c"
  by (auto simp: is_digit_def StrWhiteSpaceChar_def)

lemma trim_unchanged:
  assumes "s \<noteq> []" and "\<not> StrWhiteSpaceChar (hd s)" and "\<not> StrWhiteSpaceChar (last s)"
  shows "trim s = s"
proof -
  have "dropWhile StrWhiteSpaceChar s = s"
    using assms(1,2) by (cases s) simp_all
  moreover have "dropWhile StrWhiteSpaceChar (rev s) = rev s"
  proof -
    have "hd (rev s) = last s" using assms(1) by (simp add: hd_rev)
    with assms(3) have "\<not> StrWhiteSpaceChar (hd (rev s))" by simp
    moreover have "rev s \<noteq> []" using assms(1) by simp
    ultimately show ?thesis by (cases "rev s") (simp_all del: rev_is_Nil_conv)
  qed
  ultimately show ?thesis by (simp add: trim_def)
qed

lemma trim_digits:
  assumes "s \<noteq> []" and "list_all is_digit s"
  shows "trim s = s"
proof (rule trim_unchanged [OF assms(1)])
  show "\<not> StrWhiteSpaceChar (hd s)"
    using assms by (cases s) (simp_all add: digit_not_space)
  have "last s \<in> set s" using assms(1) by simp
  then have "is_digit (last s)" using assms(2) by (simp add: list_all_iff)
  then show "\<not> StrWhiteSpaceChar (last s)" by (rule digit_not_space)
qed

lemma NonDecimalIntegerLiteral_digits:
  assumes "list_all is_digit s"
  shows "NonDecimalIntegerLiteral s = None"
proof (cases s)
  case Nil
  then show ?thesis by (simp add: NonDecimalIntegerLiteral_def)
next
  case (Cons z r)
  show ?thesis
  proof (cases r)
    case Nil
    with Cons show ?thesis by (simp add: NonDecimalIntegerLiteral_def)
  next
    case (Cons x ds)
    with \<open>s = z # r\<close> assms have "is_digit x" by simp
    then have "x \<notin> set ''xXoObB''" by (auto simp: is_digit_def)
    with Cons \<open>s = z # r\<close> show ?thesis by (simp add: NonDecimalIntegerLiteral_def)
  qed
qed

lemma StrDecimalLiteral_digits:
  assumes "s \<noteq> []" and "list_all is_digit s"
  shows "StrDecimalLiteral s = Finite (of_nat (digits_value 10 s))"
proof -
  obtain c r where s: "s = c # r" using assms(1) by (cases s) auto
  with assms(2) have c: "is_digit c" by simp
  then have sign: "c \<noteq> CHR ''+''" "c \<noteq> CHR ''-''" "c \<noteq> CHR ''I''"
    by (auto simp: is_digit_def)
  have t: "takeWhile is_digit s = s" and d: "dropWhile is_digit s = []"
    using assms(2) by (simp_all add: list_all_iff)
  have inf: "s \<noteq> ''Infinity''" using s sign by auto
  have "StrUnsignedDecimalLiteral s = Finite (of_nat (digits_value 10 s))"
    using assms(1) inf by (simp add: StrUnsignedDecimalLiteral_def t d ExponentPart_def scale10_def)
  then show ?thesis using s sign by (simp add: StrDecimalLiteral_def)
qed

lemma digit_value_digit: "k < 10 \<Longrightarrow> digit_value (''0123456789'' ! k) = k"
proof -
  assume "k < 10"
  then have "k \<in> {0, 1, 2, 3, 4, 5, 6, 7, 8, 9}" by auto
  then show ?thesis by (elim insertE) (simp_all add: digit_value_def)
qed

lemma digits_value_snoc: "digits_value b (ds @ [d]) = b * digits_value b ds + digit_value d"
  by (simp add: digits_value_def)

lemma digits_value_show_nat: "digits_value 10 (show_nat n) = n"
proof (induction n rule: show_nat.induct)
  case (1 n)
  show ?case
  proof (cases "n < 10")
    case True
    then show ?thesis by (simp add: show_nat_small digits_value_def digit_value_digit)
  next
    case False
    with 1 have "digits_value 10 (show_nat (n div 10)) = n div 10" by simp
    with False show ?thesis
      by (simp add: show_nat_large digits_value_snoc digit_value_digit)
  qed
qed

text \<open>The Number of the decimal text of a count is the double nearest to the count.\<close>

lemma StringToNumber_show_nat: "StringToNumber (show_nat n) = to_double (of_nat n)"
  by (simp add: StringToNumber_def trim_digits NonDecimalIntegerLiteral_digits
      StrDecimalLiteral_digits show_nat_nonempty show_nat_all_digits digits_value_show_nat)

lemma bit_length_le: "n < 2 ^ k \<Longrightarrow> bit_length n \<le> k"
proof (induction k arbitrary: n)
  case 0
  then show ?case by (simp add: bit_length.simps)
next
  case (Suc k)
  show ?case
  proof (cases "n = 0")
    case True
    then show ?thesis by (simp add: bit_length.simps)
  next
    case False
    from Suc.prems have "n div 2 < 2 ^ k" by simp
    then have "bit_length (n div 2) \<le> k" by (rule Suc.IH)
    with False show ?thesis by (subst bit_length.simps) simp
  qed
qed

lemma bit_length_pos: "0 < n \<Longrightarrow> 0 < bit_length n"
  by (subst bit_length.simps) simp

lemma round_half_even_of_int: "round_half_even (of_int k) = k"
  by (simp add: round_half_even_def)

lemma nearest_integer_error:
  fixes y :: rat and f :: int
  assumes "of_int f \<le> y" and "y < of_int f + 1"
  shows "\<bar>of_int (if y - of_int f < 1 / 2 then f else if 1 / 2 < y - of_int f then f + 1
                   else if even f then f else f + 1) - y\<bar> \<le> 1 / 2"
  using assms by (auto simp: abs_if)

lemma round_half_even_error: "\<bar>of_int (round_half_even y) - y\<bar> \<le> 1 / 2"
proof -
  have "of_int \<lfloor>y\<rfloor> \<le> y" and "y < of_int \<lfloor>y\<rfloor> + 1"
    by linarith+
  then show ?thesis
    unfolding round_half_even_def Let_def by (rule nearest_integer_error)
qed

lemma pow2_pos: "0 < pow2 t"
  by (simp add: pow2_def)

lemma pow2_nonpos: "t \<le> 0 \<Longrightarrow> pow2 t = 1 / 2 ^ nat (- t)"
  by (cases "t = 0") (simp_all add: pow2_def)

lemma pow2_small: assumes "t \<le> - 2" shows "pow2 t \<le> 1 / 4"
proof -
  have "2 \<le> nat (- t)" using assms by simp
  then have "(2::rat) ^ 2 \<le> 2 ^ nat (- t)" by (intro power_increasing) simp_all
  then have "1 / (2::rat) ^ nat (- t) \<le> 1 / 2 ^ 2"
    by (intro divide_left_mono) simp_all
  then show ?thesis using assms by (simp add: pow2_nonpos)
qed

text \<open>Every count below \<open>2^53\<close> is a double.\<close>

lemma to_double_of_nat:
  assumes "n < 2 ^ 53"
  shows "to_double (of_nat n) = Fin (of_nat n)"
proof (cases "n = 0")
  case True
  then show ?thesis by (simp add: to_double_0)
next
  case False
  define e where "e = int (bit_length n) - 1"
  define m where "m = nat (52 - e)"
  have "bit_length n \<le> 53" using assms by (rule bit_length_le)
  moreover have "0 < bit_length n" using False by (simp add: bit_length_pos)
  ultimately have e: "0 \<le> e" "e \<le> 52" by (simp_all add: e_def)
  have x: "(1::rat) \<le> of_nat n" using False by simp
  have fl: "floor_log2 (of_nat n) = e"
    using x by (simp add: floor_log2_def e_def)
  have q: "pow2 (max e (- 1022) - 52) = 1 / 2 ^ m"
    using e by (simp add: pow2_nonpos m_def max_def)
  have "(of_nat n :: rat) / (1 / 2 ^ m) = of_int (int n * 2 ^ m)" by simp
  then have "round_half_even ((of_nat n :: rat) / (1 / 2 ^ m)) = int n * 2 ^ m"
    by (simp only: round_half_even_of_int)
  then have r: "round_magnitude (of_nat n) = of_nat n"
    by (simp add: round_magnitude_def fl q)
  have "(of_nat n :: rat) < 2 ^ 53" using assms by (metis of_nat_less_iff of_nat_numeral of_nat_power)
  also have "\<dots> \<le> 2 ^ 1024" by (intro power_increasing) simp_all
  finally have "\<not> pow2 1024 \<le> (of_nat n :: rat)" by (simp add: pow2_def)
  then show ?thesis using False r by (simp add: to_double_def)
qed

lemma floor_log2_le:
  assumes "0 < x" and "x < 2 ^ 51"
  shows "floor_log2 x \<le> 50"
proof (cases "1 \<le> x")
  case True
  have "\<lfloor>x\<rfloor> < 2 ^ 51" using assms(2) by (simp add: floor_less_iff)
  moreover have "0 \<le> \<lfloor>x\<rfloor>" using True by simp
  ultimately have "nat \<lfloor>x\<rfloor> < 2 ^ 51" by (simp add: nat_less_iff)
  then have "bit_length (nat \<lfloor>x\<rfloor>) \<le> 51" by (rule bit_length_le)
  with True show ?thesis by (simp add: floor_log2_def)
next
  case False
  then show ?thesis by (simp add: floor_log2_def Let_def)
qed

lemma round_magnitude_error:
  assumes "0 < x" and "x < 2 ^ 51"
  shows "\<bar>round_magnitude x - x\<bar> \<le> 1 / 8"
proof -
  define q where "q = pow2 (max (floor_log2 x) (- 1022) - 52)"
  have "max (floor_log2 x) (- 1022) - 52 \<le> - 2"
    using floor_log2_le [OF assms] by simp
  then have q4: "q \<le> 1 / 4" unfolding q_def by (rule pow2_small)
  have q0: "0 < q" unfolding q_def by (rule pow2_pos)
  have "round_magnitude x - x = (of_int (round_half_even (x / q)) - x / q) * q"
    using q0 by (simp add: round_magnitude_def q_def [symmetric] Let_def algebra_simps)
  then have "\<bar>round_magnitude x - x\<bar> = \<bar>of_int (round_half_even (x / q)) - x / q\<bar> * q"
    using q0 by (simp add: abs_mult)
  also have "\<dots> \<le> (1 / 2) * q"
    using q0 round_half_even_error [of "x / q"] by (intro mult_right_mono) simp_all
  also have "\<dots> \<le> 1 / 8" using q4 by simp
  finally show ?thesis .
qed

text \<open>
  The ceiling of the double quotient of a count by the page size is the ceiling of the
  exact quotient.
\<close>

lemma Math_ceil_div_6:
  assumes "n < 2 ^ 53"
  shows "Math_ceil (js_div (Fin (of_nat n)) (Fin 6)) = Fin (of_int \<lceil>(of_nat n :: rat) / 6\<rceil>)"
proof (cases "6 dvd n")
  case True
  then obtain k where k: "n = 6 * k" by (auto simp: dvd_def)
  then have "k < 2 ^ 53" using assms by simp
  then have "to_double (of_nat k) = Fin (of_nat k)" by (rule to_double_of_nat)
  moreover have "(of_nat n :: rat) / 6 = of_nat k" using k by simp
  ultimately show ?thesis by simp
next
  case False
  define x :: rat where "x = of_nat n / 6"
  define k :: int where "k = int (n div 6)"
  define j where "j = n mod 6"
  have j: "1 \<le> j" "j \<le> 5" using False by (auto simp: j_def dvd_eq_mod_eq_0)
  have "n = 6 * (n div 6) + j" by (simp add: j_def)
  then have "(of_nat n :: rat) = 6 * of_nat (n div 6) + of_nat j"
    by (metis of_nat_add of_nat_mult of_nat_numeral)
  then have x: "x = of_int k + of_nat j / 6" by (simp add: x_def k_def)
  have j1: "(1::rat) \<le> of_nat j" and j5: "(of_nat j :: rat) \<le> 5"
    using j by (simp_all add: Suc_le_eq)
  have lo: "of_int k + 1 / 6 \<le> x" and hi: "x \<le> of_int k + 5 / 6"
    using j1 j5 by (simp_all add: x)
  have "0 \<le> k" by (simp add: k_def)
  then have x0: "0 < x" using lo by (simp add: add_nonneg_pos)
  have "(of_nat n :: rat) < 2 ^ 53"
    using assms by (metis of_nat_less_iff of_nat_numeral of_nat_power)
  then have x51: "x < 2 ^ 51" by (simp add: x_def)
  have err: "\<bar>round_magnitude x - x\<bar> \<le> 1 / 8" using x0 x51 by (rule round_magnitude_error)
  have r_lo: "of_int k < round_magnitude x" and r_hi: "round_magnitude x < of_int k + 1"
    using err lo hi by linarith+
  have "round_magnitude x < 2 ^ 51 + 1" using err x51 by linarith
  also have "\<dots> \<le> 2 ^ 1024" by simp
  finally have "\<not> pow2 1024 \<le> round_magnitude x" by (simp add: pow2_def)
  then have d: "to_double x = Fin (round_magnitude x)"
    using x0 by (simp add: to_double_def)
  have "\<lceil>round_magnitude x\<rceil> = k + 1"
    using r_lo r_hi by (intro ceiling_unique) simp_all
  moreover have "\<lceil>x\<rceil> = k + 1"
    using lo hi by (intro ceiling_unique) simp_all
  ultimately show ?thesis using d by (simp add: x_def)
qed

section \<open>Binary exponents and rounding errors\<close>

lemma pow2_powi: "pow2 k = 2 powi k"
  by (simp add: pow2_def power_int_def power_one_over)

lemma pow2_mono: "s \<le> t \<Longrightarrow> pow2 s \<le> pow2 t"
  by (simp add: pow2_powi power_int_increasing)

lemma pow2_strict_mono: "s < t \<Longrightarrow> pow2 s < pow2 t"
  by (simp add: pow2_powi power_int_strict_increasing)

lemma pow2_add: "pow2 (s + t) = pow2 s * pow2 t"
  by (simp add: pow2_powi power_int_add)

lemma pow2_nat: "pow2 (int n) = 2 ^ n"
  by (simp add: pow2_def)

lemma bit_length_upper: "n < 2 ^ bit_length n"
proof (induction n rule: bit_length.induct)
  case (1 n)
  show ?case
  proof (cases "n = 0")
    case True
    then show ?thesis by simp
  next
    case False
    with 1 have "n div 2 < 2 ^ bit_length (n div 2)" by simp
    then have "n < 2 * 2 ^ bit_length (n div 2)" by linarith
    with False show ?thesis by (subst bit_length.simps) simp
  qed
qed

lemma bit_length_lower: "0 < n \<Longrightarrow> 2 ^ (bit_length n - 1) \<le> n"
proof (induction n rule: bit_length.induct)
  case (1 n)
  show ?case
  proof (cases "n div 2 = 0")
    case True
    with 1(2) have "n = 1" by linarith
    then show ?thesis by (simp add: bit_length_Suc0)
  next
    case False
    with 1 have ih: "2 ^ (bit_length (n div 2) - 1) \<le> n div 2" by simp
    have pos: "0 < bit_length (n div 2)" using False by (simp add: bit_length.simps)
    have "bit_length n = Suc (bit_length (n div 2))"
      using 1(2) by (subst bit_length.simps) simp
    then have "bit_length n - 1 = Suc (bit_length (n div 2) - 1)" using pos by simp
    then have "(2::nat) ^ (bit_length n - 1) = 2 * 2 ^ (bit_length (n div 2) - 1)" by simp
    also have "\<dots> \<le> 2 * (n div 2)" using ih by simp
    also have "\<dots> \<le> n" by simp
    finally show ?thesis .
  qed
qed

lemma floor_log2_bounds:
  assumes "0 < x"
  shows "pow2 (floor_log2 x) \<le> x" and "x < pow2 (floor_log2 x + 1)"
proof -
  have "pow2 (floor_log2 x) \<le> x \<and> x < pow2 (floor_log2 x + 1)"
  proof (cases "1 \<le> x")
    case True
    define n where "n = nat \<lfloor>x\<rfloor>"
    have n1: "0 < n" using True by (simp add: n_def)
    have nx: "of_nat n \<le> x" using True by (simp add: n_def)
    have xn: "x < of_nat n + 1" using True by (simp add: n_def) linarith
    have e: "floor_log2 x = int (bit_length n - 1)"
      using True n1 bit_length_pos [of n] by (simp add: floor_log2_def n_def)
    have e1: "floor_log2 x + 1 = int (bit_length n)"
      using e n1 bit_length_pos [of n] by simp
    have a: "(2::rat) ^ (bit_length n - 1) \<le> of_nat n"
      using bit_length_lower [OF n1] by (metis of_nat_le_iff of_nat_numeral of_nat_power)
    have "pow2 (floor_log2 x) = 2 ^ (bit_length n - 1)" by (simp only: e pow2_nat)
    with a nx have lo: "pow2 (floor_log2 x) \<le> x" by linarith
    have "n + 1 \<le> 2 ^ bit_length n" using bit_length_upper [of n] by simp
    then have b: "(of_nat (n + 1) :: rat) \<le> 2 ^ bit_length n"
      by (metis of_nat_le_iff of_nat_numeral of_nat_power)
    have c: "(of_nat (n + 1) :: rat) = of_nat n + 1" by simp
    have "pow2 (floor_log2 x + 1) = 2 ^ bit_length n" by (simp only: e1 pow2_nat)
    with b c xn have "x < pow2 (floor_log2 x + 1)" by linarith
    with lo show ?thesis by simp
  next
    case False
    define y where "y = 1 / x"
    define n where "n = nat \<lfloor>y\<rfloor>"
    define k where "k = bit_length n - 1"
    have y1: "1 < y" using False assms by (simp add: y_def)
    have xy: "x = 1 / y" by (simp add: y_def)
    have n1: "0 < n" using y1 by (simp add: n_def)
    have ny: "of_nat n \<le> y" using y1 by (simp add: n_def)
    have yn: "y < of_nat n + 1" using y1 by (simp add: n_def) linarith
    have bl: "bit_length n = Suc k" using bit_length_pos [OF n1] by (simp add: k_def)
    have a: "(2::rat) ^ k \<le> of_nat n"
      using bit_length_lower [OF n1] unfolding k_def
      by (metis of_nat_le_iff of_nat_numeral of_nat_power)
    from a ny have lo: "2 ^ k \<le> y" by linarith
    have "n + 1 \<le> 2 ^ Suc k" using bit_length_upper [of n] bl by simp
    then have b: "(of_nat (n + 1) :: rat) \<le> 2 ^ Suc k"
      by (metis of_nat_le_iff of_nat_numeral of_nat_power)
    have c: "(of_nat (n + 1) :: rat) = of_nat n + 1" by simp
    from b c yn have hi: "y < 2 ^ Suc k" by linarith
    have kk: "int (bit_length (nat \<lfloor>1 / x\<rfloor>)) - 1 = int k"
      using bl by (simp add: n_def y_def)
    have x_hi: "x \<le> 1 / 2 ^ k"
      using lo y1 unfolding xy by (intro divide_left_mono) simp_all
    have x_lo: "1 / 2 ^ Suc k < x"
      using hi y1 unfolding xy by (intro divide_strict_left_mono) simp_all
    show ?thesis
    proof (cases "x * pow2 (int k) = 1")
      case True
      then have e: "floor_log2 x = - int k"
        using False by (simp add: floor_log2_def kk Let_def)
      from True have xe: "x = 1 / 2 ^ k" by (simp add: pow2_nat field_simps)
      have p: "pow2 (- int k) = 1 / 2 ^ k" by (simp add: pow2_nonpos)
      have "pow2 (- int k + 1) = pow2 (- int k) * pow2 1" by (rule pow2_add)
      then have p1: "pow2 (- int k + 1) = 2 * (1 / 2 ^ k)" by (simp add: p pow2_def)
      have px: "pow2 (- int k) = x" and px1: "pow2 (- int k + 1) = 2 * x"
        by (simp_all only: p p1 xe)
      show ?thesis unfolding e px px1 using assms by simp
    next
      case ne: False
      then have e: "floor_log2 x = - int k - 1"
        using False by (simp add: floor_log2_def kk Let_def)
      have "x \<noteq> 1 / 2 ^ k" using ne by (auto simp: pow2_nat)
      with x_hi have x_hi': "x < 1 / 2 ^ k" by simp
      have p: "pow2 (- int k - 1) = 1 / 2 ^ Suc k"
        by (simp add: pow2_nonpos nat_add_distrib)
      have p1: "pow2 (- int k - 1 + 1) = 1 / 2 ^ k" by (simp add: pow2_nonpos)
      show ?thesis using x_lo x_hi' by (simp only: e p p1) simp
    qed
  qed
  then show "pow2 (floor_log2 x) \<le> x" and "x < pow2 (floor_log2 x + 1)" by simp_all
qed

lemma floor_log2_less:
  assumes "0 < x" and "x < pow2 t"
  shows "floor_log2 x < t"
proof (rule ccontr)
  assume "\<not> floor_log2 x < t"
  then have "pow2 t \<le> pow2 (floor_log2 x)" by (intro pow2_mono) simp
  with floor_log2_bounds(1) [OF assms(1)] assms(2) show False by simp
qed

lemma floor_log2_ge:
  assumes "0 < x" and "pow2 t \<le> x"
  shows "t \<le> floor_log2 x"
proof (rule ccontr)
  assume "\<not> t \<le> floor_log2 x"
  then have "pow2 (floor_log2 x + 1) \<le> pow2 t" by (intro pow2_mono) simp
  with floor_log2_bounds(2) [OF assms(1)] assms(2) show False by simp
qed

lemma round_half_even_ge_floor: "\<lfloor>y\<rfloor> \<le> round_half_even y"
  by (simp add: round_half_even_def Let_def)

text \<open>The general error bound: half a unit in the last place.\<close>

lemma round_magnitude_error_below:
  assumes "0 < x" and "x < pow2 t" and "- 1021 \<le> t"
  shows "\<bar>round_magnitude x - x\<bar> \<le> pow2 (t - 54)"
proof -
  define q where "q = pow2 (max (floor_log2 x) (- 1022) - 52)"
  have "floor_log2 x < t" using assms(1,2) by (rule floor_log2_less)
  then have "max (floor_log2 x) (- 1022) - 52 \<le> t - 53" using assms(3) by simp
  then have "q \<le> pow2 (t - 53)" unfolding q_def by (rule pow2_mono)
  moreover have "pow2 (t - 53) = pow2 (t - 54) * 2"
    using pow2_add [of "t - 54" 1] by (simp add: pow2_def)
  ultimately have qh: "(1 / 2) * q \<le> pow2 (t - 54)" by simp
  have q0: "0 < q" unfolding q_def by (rule pow2_pos)
  have "round_magnitude x - x = (of_int (round_half_even (x / q)) - x / q) * q"
    using q0 by (simp add: round_magnitude_def q_def [symmetric] Let_def algebra_simps)
  then have "\<bar>round_magnitude x - x\<bar> = \<bar>of_int (round_half_even (x / q)) - x / q\<bar> * q"
    using q0 by (simp add: abs_mult)
  also have "\<dots> \<le> (1 / 2) * q"
    using q0 round_half_even_error [of "x / q"] by (intro mult_right_mono) simp_all
  also have "\<dots> \<le> pow2 (t - 54)" by (rule qh)
  finally show ?thesis .
qed

text \<open>A normal number does not round below the power of two under it.\<close>

lemma round_magnitude_normal:
  assumes "pow2 (- 1022) \<le> x"
  shows "pow2 (floor_log2 x) \<le> round_magnitude x" and "x / 2 < round_magnitude x"
proof -
  have x0: "0 < x" using assms pow2_pos [of "- 1022"] by linarith
  define e where "e = floor_log2 x"
  define q where "q = pow2 (e - 52)"
  have e: "- 1022 \<le> e" unfolding e_def using x0 assms by (rule floor_log2_ge)
  have q0: "0 < q" unfolding q_def by (rule pow2_pos)
  have pe: "pow2 e = 2 ^ 52 * q"
    using pow2_add [of 52 "e - 52"] by (simp add: q_def pow2_def)
  have "pow2 e \<le> x" unfolding e_def using x0 by (rule floor_log2_bounds)
  then have "2 ^ 52 \<le> x / q" using q0 by (simp add: pe pos_le_divide_eq)
  then have "of_int (2 ^ 52) \<le> x / q" by simp
  then have "2 ^ 52 \<le> \<lfloor>x / q\<rfloor>" by (simp only: le_floor_iff)
  then have "2 ^ 52 \<le> round_half_even (x / q)"
    using round_half_even_ge_floor [of "x / q"] by linarith
  then have "(2::rat) ^ 52 \<le> of_int (round_half_even (x / q))"
    by (metis of_int_le_iff of_int_numeral of_int_power)
  then have "2 ^ 52 * q \<le> of_int (round_half_even (x / q)) * q"
    using q0 by (intro mult_right_mono) simp_all
  moreover have "round_magnitude x = of_int (round_half_even (x / q)) * q"
    using e by (simp add: round_magnitude_def e_def [symmetric] q_def max_def Let_def)
  ultimately have r: "pow2 e \<le> round_magnitude x" by (simp add: pe)
  then show "pow2 (floor_log2 x) \<le> round_magnitude x" by (simp add: e_def)
  have "x < pow2 (e + 1)" unfolding e_def using x0 by (rule floor_log2_bounds)
  moreover have "pow2 (e + 1) = pow2 e * 2" using pow2_add [of e 1] by (simp add: pow2_def)
  ultimately show "x / 2 < round_magnitude x" using r by simp
qed

lemma pow2_neg_numeral: "pow2 (- numeral n) = 1 / 2 ^ numeral n"
  by (simp add: pow2_def)

lemma pow2_numeral: "pow2 (numeral n) = 2 ^ numeral n"
  by (simp add: pow2_def)

lemma to_double_pos:
  assumes "0 < x" and "round_magnitude x < 2 ^ 1024"
  shows "to_double x = Fin (round_magnitude x)"
  using assms by (simp add: to_double_def pow2_numeral)

text \<open>The negative of a normal number rounds to a negative double or to the infinity.\<close>

lemma to_double_minus:
  assumes "pow2 (- 1022) \<le> x"
  shows "to_double (- x) = NegInf \<or> (\<exists>r. to_double (- x) = Fin (- r) \<and> x / 2 < r)"
proof -
  have "0 < x" using assms pow2_pos [of "- 1022"] by linarith
  then show ?thesis
    using round_magnitude_normal(2) [OF assms] by (simp add: to_double_def Let_def)
qed

lemma double_round_magnitude:
  assumes "is_double p" and "0 < p"
  shows "round_magnitude p = p"
  using assms by (simp add: is_double_def to_double_def Let_def split: if_splits)

text \<open>The largest double below 1 is \<open>1 - 2^-53\<close>.\<close>

lemma double_below_one:
  assumes "is_double p" and "p < 1"
  shows "p \<le> 1 - 1 / 2 ^ 53"
proof (cases "p \<le> 1 / 2")
  case True
  then show ?thesis by simp
next
  case False
  then have half: "1 / 2 < p" by simp
  then have p0: "0 < p" by simp
  have "pow2 (- 1) \<le> p" using half by (simp add: pow2_def)
  then have "- 1 \<le> floor_log2 p" using p0 by (intro floor_log2_ge) 
  moreover have "p < pow2 0" using assms(2) by (simp add: pow2_def)
  then have "floor_log2 p < 0" using p0 by (intro floor_log2_less)
  ultimately have e: "floor_log2 p = - 1" by simp
  define N where "N = round_half_even (p / pow2 (- 53))"
  have "round_magnitude p = of_int N * pow2 (- 53)"
    by (simp add: round_magnitude_def e N_def Let_def)
  then have "p = of_int N * pow2 (- 53)"
    using double_round_magnitude [OF assms(1) p0] by simp
  then have pN: "p = of_int N / 2 ^ 53" by (simp add: pow2_neg_numeral)
  then have "of_int N = p * 2 ^ 53" by simp
  also have "\<dots> < 1 * 2 ^ 53" using assms(2) by (intro mult_strict_right_mono) simp_all
  finally have "(of_int N :: rat) < of_int (2 ^ 53)" by simp
  then have "N < 2 ^ 53" by (simp only: of_int_less_iff)
  then have "N \<le> 2 ^ 53 - 1" by simp
  then have "(of_int N :: rat) \<le> of_int (2 ^ 53 - 1)" by (simp only: of_int_le_iff)
  then have "(of_int N :: rat) \<le> 2 ^ 53 - 1" by simp
  then have "of_int N / 2 ^ 53 \<le> ((2::rat) ^ 53 - 1) / 2 ^ 53"
    by (intro divide_right_mono) simp_all
  then show ?thesis by (simp add: pN)
qed

text \<open>
  For a page number below 1 the offset \<open>(page - 1) * 6\<close> of the doubles is negative.
\<close>

lemma offset_below_zero:
  assumes "is_double p" and "p < 1"
  shows "less_than_zero (js_mul (js_sub (Fin p) (Fin 1)) (Fin 6))"
proof -
  define x where "x = 1 - p"
  have x53: "1 / 2 ^ 53 \<le> x"
    using double_below_one [OF assms] by (simp add: x_def)
  have "pow2 (- 1022) \<le> pow2 (- 53)" by (rule pow2_mono) simp
  also have "\<dots> = 1 / 2 ^ 53" by (rule pow2_neg_numeral)
  finally have n: "pow2 (- 1022) \<le> x" using x53 by simp
  have s: "js_sub (Fin p) (Fin 1) = to_double (- x)" by (simp add: x_def)
  from to_double_minus [OF n] show ?thesis
  proof
    assume "to_double (- x) = NegInf"
    then show ?thesis by (simp add: s less_than_zero_def del: js_sub.simps)
  next
    assume "\<exists>r. to_double (- x) = Fin (- r) \<and> x / 2 < r"
    then obtain r where r: "to_double (- x) = Fin (- r)" and xr: "x / 2 < r" by blast
    have "pow2 (- 1022) \<le> pow2 (- 54)" by (rule pow2_mono) simp
    also have "\<dots> = 1 / 2 ^ 54" by (rule pow2_neg_numeral)
    also have "\<dots> \<le> x / 2" using x53 by simp
    also have "\<dots> \<le> r * 6" using xr x53 by simp
    finally have n6: "pow2 (- 1022) \<le> r * 6" .
    have m: "js_mul (js_sub (Fin p) (Fin 1)) (Fin 6) = to_double (- (r * 6))"
      by (simp add: s r del: js_sub.simps)
    from to_double_minus [OF n6] show ?thesis
      by (auto simp: m less_than_zero_def simp del: js_sub.simps js_mul.simps)
         (use xr x53 in \<open>simp_all\<close>)
  qed
qed

text \<open>
  A price with whole cents: the double nearest to \<open>k / 100\<close> times 100, rounded, is
  \<open>k\<close> again, for every cent count of the \<^verbatim>\<open>INTEGER\<close> column.
\<close>

lemma cents_round_trip:
  assumes "0 < k" and "k \<le> 2147483647"
  shows "\<exists>a. 0 < a \<and> js_div (Fin (of_int k)) (Fin 100) = Fin a
           \<and> spec_round (js_mul (Fin a) (Fin 100)) = Fin (of_int k)"
proof -
  define x :: rat where "x = of_int k / 100"
  define a where "a = round_magnitude x"
  define y where "y = a * 100"
  define b where "b = round_magnitude y"
  have k1: "(1::rat) \<le> of_int k" using assms(1) by simp
  have k2: "(of_int k :: rat) \<le> 2147483647" using assms(2) by simp
  have x_lo: "1 / 100 \<le> x" using k1 by (simp add: x_def)
  have x_hi: "x \<le> 21474837" using k2 by (simp add: x_def)
  have x0: "0 < x" using x_lo by simp
  have "x < pow2 25" using x_hi by (simp add: pow2_numeral)
  then have "\<bar>a - x\<bar> \<le> pow2 (25 - 54)"
    unfolding a_def using x0 by (intro round_magnitude_error_below) simp_all
  then have e1: "\<bar>a - x\<bar> \<le> 1 / 536870912" by (simp add: pow2_neg_numeral)
  have a0: "0 < a" using e1 x_lo by linarith
  have a_hi: "a < 33554432" using e1 x_hi by linarith
  have "round_magnitude x < 2 ^ 1024" using a_hi by (simp add: a_def)
  then have d1: "to_double x = Fin a" unfolding a_def using x0 by (intro to_double_pos)
  have y0: "0 < y" using a0 by (simp add: y_def)
  have y_hi: "y < 3355443200" using a_hi by (simp add: y_def)
  then have "y < pow2 32" by (simp add: pow2_numeral)
  then have "\<bar>b - y\<bar> \<le> pow2 (32 - 54)"
    unfolding b_def using y0 by (intro round_magnitude_error_below) simp_all
  then have e2: "\<bar>b - y\<bar> \<le> 1 / 4194304" by (simp add: pow2_neg_numeral)
  have "b < 4294967296" using e2 y_hi by linarith
  then have "round_magnitude y < 2 ^ 1024" by (simp add: b_def)
  then have d2: "to_double y = Fin b" unfolding b_def using y0 by (intro to_double_pos)
  have yk: "y = of_int k + 100 * a - 100 * x" by (simp add: y_def x_def)
  have d1': "- (1 / 536870912) \<le> a - x" "a - x \<le> 1 / 536870912"
    using e1 by linarith+
  have d2': "- (1 / 4194304) \<le> b - y" "b - y \<le> 1 / 4194304"
    using e2 by linarith+
  have lo: "of_int k \<le> b + 1 / 2" and hi: "b + 1 / 2 < of_int k + 1"
    using d1' d2' yk by linarith+
  have "\<lfloor>b + 1 / 2\<rfloor> = k" using lo hi by (intro floor_unique) simp_all
  then have "spec_round (js_mul (Fin a) (Fin 100)) = Fin (of_int k)"
    using d2 by (simp add: y_def)
  moreover have "js_div (Fin (of_int k)) (Fin 100) = Fin a"
    using d1 by (simp add: x_def)
  ultimately show ?thesis using a0 by blast
qed

lemma round_half_even_nonneg: "0 \<le> y \<Longrightarrow> 0 \<le> round_half_even y"
  using round_half_even_ge_floor [of y] by (simp add: order_trans [of 0 "\<lfloor>y\<rfloor>"])

lemma round_magnitude_nonneg: "0 \<le> x \<Longrightarrow> 0 \<le> round_magnitude x"
  by (simp add: round_magnitude_def Let_def round_half_even_nonneg pow2_pos less_imp_le)

text \<open>The rounded cents of an amount above zero are not negative.\<close>

lemma spec_round_product_nonneg:
  assumes "0 < a" and "spec_round (js_mul (Fin a) (Fin 100)) = Fin (of_int cents)"
  shows "0 \<le> cents"
proof -
  have "0 \<le> round_magnitude (a * 100)" using assms(1) by (intro round_magnitude_nonneg) simp
  then have "(0::rat) \<le> of_int \<lfloor>round_magnitude (a * 100) + 1 / 2\<rfloor>" by simp
  moreover have "of_int \<lfloor>round_magnitude (a * 100) + 1 / 2\<rfloor> = (of_int cents :: rat)"
    using assms by (simp add: to_double_def Let_def split: if_splits)
  ultimately have "(0::rat) \<le> of_int cents" by simp
  then show ?thesis by simp
qed

section \<open>Dates\<close>

lemma length_show_nat: "n < 10 ^ w \<Longrightarrow> 0 < w \<Longrightarrow> length (show_nat n) \<le> w"
proof (induction w arbitrary: n)
  case 0
  then show ?case by simp
next
  case (Suc w)
  show ?case
  proof (cases "n < 10")
    case True
    then show ?thesis by (simp add: show_nat_small)
  next
    case False
    have d: "n div 10 < 10 ^ w" using Suc.prems(1) by (simp add: less_mult_imp_div_less mult.commute)
    have "0 < w" using False Suc.prems(1) by (cases w) simp_all
    with d have "length (show_nat (n div 10)) \<le> w" by (rule Suc.IH)
    with False show ?thesis by (simp add: show_nat_large)
  qed
qed

lemma length_pad: "length (show_nat n) \<le> w \<Longrightarrow> length (pad w n) = w"
  by (simp add: pad_def)

lemma pad_all_digits: "list_all is_digit (pad w n)"
proof -
  have "is_digit CHR ''0''" by (simp add: is_digit_def)
  then have "list_all is_digit (replicate k CHR ''0'')" for k by (induction k) simp_all
  then show ?thesis using show_nat_all_digits [of n] by (simp add: pad_def)
qed

lemma digits_value_zeros: "digits_value b (replicate k CHR ''0'' @ s) = digits_value b s"
  by (induction k) (simp_all add: digits_value_def digit_value_def)

lemma digits_value_pad: "digits_value 10 (pad w n) = n"
  by (simp add: pad_def digits_value_zeros digits_value_show_nat)

lemma days_in_month_le: "days_in_month y m \<le> 31"
  by (simp add: days_in_month_def)

lemma sql_date_parts:
  assumes "length y = 4" and "length m = 2" and "length d = 2"
    and "list_all is_digit y" and "list_all is_digit m" and "list_all is_digit d"
    and "valid_date \<lparr>year = digits_value 10 y, month = digits_value 10 m,
           day = digits_value 10 d\<rparr>"
  shows "sql_date (y @ ''-'' @ m @ ''-'' @ d) = Some (y @ ''-'' @ m @ ''-'' @ d)"
  using assms by (simp add: sql_date_def nth_append)

text \<open>The store takes the ISO form of every day of the calendar.\<close>

lemma sql_date_iso_date:
  assumes "valid_date t"
  shows "sql_date (iso_date t) = Some (iso_date t)"
proof -
  have y: "year t < 10 ^ 4" and m: "month t < 10 ^ 2" and d: "day t < 10 ^ 2"
    using assms days_in_month_le [of "year t" "month t"] by (simp_all add: valid_date_def)
  have ly: "length (pad 4 (year t)) = 4"
    using y by (intro length_pad length_show_nat) simp_all
  have lm: "length (pad 2 (month t)) = 2"
    using m by (intro length_pad length_show_nat) simp_all
  have ld: "length (pad 2 (day t)) = 2"
    using d by (intro length_pad length_show_nat) simp_all
  have v: "valid_date \<lparr>year = digits_value 10 (pad 4 (year t)),
      month = digits_value 10 (pad 2 (month t)), day = digits_value 10 (pad 2 (day t))\<rparr>"
    using assms by (simp add: digits_value_pad valid_date_def)
  have "iso_date t = pad 4 (year t) @ ''-'' @ pad 2 (month t) @ ''-'' @ pad 2 (day t)"
    using assms by (simp add: iso_date_def valid_date_def)
  then show ?thesis
    using sql_date_parts [OF ly lm ld pad_all_digits pad_all_digits pad_all_digits v] by simp
qed

lemma iso_date_sample: "iso_date sample_today = ''2024-05-17''"
  by (simp add: iso_date_def sample_today_def show_eval)

lemma valid_date_sample: "valid_date sample_today"
  by (simp add: valid_date_def sample_today_def days_in_month_def)

section \<open>Ordering\<close>

lemma set_insert_desc: "set (insert_desc key r xs) = insert r (set xs)"
  by (induction xs) auto

lemma set_order_by_desc: "set (order_by_desc key xs) = set xs"
  by (induction xs) (simp_all add: order_by_desc_def set_insert_desc)

lemma sorted_insert_desc:
  "sorted_wrt (\<lambda>a b. key b \<le> key a) xs \<Longrightarrow> sorted_wrt (\<lambda>a b. key b \<le> key a) (insert_desc key r xs)"
proof (induction xs)
  case Nil
  then show ?case by simp
next
  case (Cons x xs)
  show ?case
  proof (cases "key x \<le> key r")
    case True
    then have "\<forall>z\<in>set xs. key z \<le> key r" using Cons.prems by auto
    with True Cons.prems show ?thesis by simp
  next
    case False
    then have "key r \<le> key x" by simp
    with False Cons show ?thesis by (auto simp: set_insert_desc)
  qed
qed

text \<open>The ordered rows are in descending order of the key.\<close>

lemma sorted_order_by_desc: "sorted_wrt (\<lambda>a b. key b \<le> key a) (order_by_desc key xs)"
proof (induction xs)
  case Nil
  then show ?case by (simp add: order_by_desc_def)
next
  case (Cons x xs)
  then have "sorted_wrt (\<lambda>a b. key b \<le> key a) (insert_desc key x (order_by_desc key xs))"
    by (rule sorted_insert_desc)
  then show ?case by (simp add: order_by_desc_def)
qed

lemma filter_insert_desc:
  "filter (\<lambda>x. key x = k) (insert_desc key r xs) =
     (if key r = k then r # filter (\<lambda>x. key x = k) xs else filter (\<lambda>x. key x = k) xs)"
  by (induction xs) auto

text \<open>They are the rows given, and rows of one key keep the order they came in.\<close>

lemma order_by_desc_stable:
  "filter (\<lambda>x. key x = k) (order_by_desc key xs) = filter (\<lambda>x. key x = k) xs"
  by (induction xs) (simp_all add: order_by_desc_def filter_insert_desc)

lemma filtered_invoices_ordered_sorted:
  "sorted_wrt (\<lambda>a b. row_date b \<le> row_date a) (filtered_invoices_ordered db query)"
  using sorted_order_by_desc [of "\<lambda>ic. inv_date (fst ic)"
      "filter (invoice_filter query) (invoices_join_customers db)"]
  by (simp add: filtered_invoices_ordered_def sorted_wrt_map select_invoices_table_def)

lemma sorted_wrt_take: "sorted_wrt R xs \<Longrightarrow> sorted_wrt R (take n xs)"
  by (metis append_take_drop_id sorted_wrt_append)

section \<open>The filter\<close>

lemma like_match_percent: "like_match ''%'' t"
  by (induction t) simp_all

lemma like_match_percent_percent: "like_match ''%%'' t"
  by (subst like_match.simps) (simp add: like_match_percent del: like_match.simps)

lemma invoice_filter_empty: "invoice_filter [] ic"
  by (simp add: invoice_filter_def ilike_def lower_char_def like_match_percent_percent
      del: like_match.simps)

section \<open>Validation\<close>

lemma validate_amount_invalid:
  "\<not> greater_than_zero (coerce_amount (raw ''amount'')) \<Longrightarrow>
   validate raw =
     Inl (field_error ''customerId'' (check_customerId (raw ''customerId''))
        @ [''amount'']
        @ field_error ''status'' (check_status (raw ''status'')))"
  by (simp add: validate_def check_amount_def field_error_def split: option.splits)

lemma validate_ok:
  assumes "raw ''customerId'' = Some c" and "c \<noteq> []"
    and "coerce_amount (raw ''amount'') = n" and "greater_than_zero n"
    and "raw ''status'' = Some s" and "s = ''pending'' \<or> s = ''paid''"
  shows "validate raw = Inr \<lparr>customerId = c, amount = n, status = s\<rparr>"
  using assms by (auto simp: validate_def check_customerId_def check_amount_def check_status_def)

text \<open>
  C2: for every field map whose amount is not numeric, that is, coerces to NaN, or
  coerces to a number that is 0 or less, \<^verbatim>\<open>createInvoice\<close> and
  \<^verbatim>\<open>updateInvoice\<close> end in Rejected with a field-level error map that has an
  entry for \<^verbatim>\<open>amount\<close>, and leave the store and the cache as they were.
\<close>

theorem invalid_amount_rejected:
  "coerce_amount (raw ''amount'') = NaN \<or> coerce_amount (raw ''amount'') = NegInf
     \<or> (\<exists>a. coerce_amount (raw ''amount'') = Fin a \<and> a \<le> 0)
   \<longrightarrow> (\<exists>errors. ''amount'' \<in> set errors
          \<and> createInvoice raw today new_id w = (Rejected errors, w)
          \<and> updateInvoice id' raw w = (Rejected errors, w))"
proof
  assume "coerce_amount (raw ''amount'') = NaN \<or> coerce_amount (raw ''amount'') = NegInf
     \<or> (\<exists>a. coerce_amount (raw ''amount'') = Fin a \<and> a \<le> 0)"
  then have "\<not> greater_than_zero (coerce_amount (raw ''amount''))"
    by (auto simp: greater_than_zero_def)
  then have v: "validate raw =
     Inl (field_error ''customerId'' (check_customerId (raw ''customerId''))
        @ [''amount'']
        @ field_error ''status'' (check_status (raw ''status'')))"
    by (rule validate_amount_invalid)
  let ?errors = "field_error ''customerId'' (check_customerId (raw ''customerId''))
        @ [''amount''] @ field_error ''status'' (check_status (raw ''status''))"
  have "createInvoice raw today new_id w = (Rejected ?errors, w)"
    by (simp add: createInvoice_def v)
  moreover have "updateInvoice id' raw w = (Rejected ?errors, w)"
    by (simp add: updateInvoice_def v)
  moreover have "''amount'' \<in> set ?errors" by simp
  ultimately show "\<exists>errors. ''amount'' \<in> set errors
          \<and> createInvoice raw today new_id w = (Rejected errors, w)
          \<and> updateInvoice id' raw w = (Rejected errors, w)"
    by blast
qed

theorem invalid_amount_rejected_witness:
  "coerce_amount (sample_fields ''abc'' ''amount'') = NaN
   \<and> createInvoice (sample_fields ''abc'') sample_today ''i2'' (sample_world True)
       = (Rejected [''amount''], sample_world True)
   \<and> coerce_amount (sample_fields ''-5'' ''amount'') = Fin (- 5)
   \<and> createInvoice (sample_fields ''-5'') sample_today ''i2'' (sample_world True)
       = (Rejected [''amount''], sample_world True)
   \<and> coerce_amount (sample_fields ''0'' ''amount'') = Fin 0
   \<and> updateInvoice ''i1'' (sample_fields ''0'') (sample_world True)
       = (Rejected [''amount''], sample_world True)"
proof -
  have nan: "coerce_amount (sample_fields ''abc'' ''amount'') = NaN"
    by (simp add: coerce_amount_def sample_fields_def literal_eval)
  have neg: "coerce_amount (sample_fields ''-5'' ''amount'') = Fin (- 5)"
    by (simp add: coerce_amount_def sample_fields_def literal_eval double_eval)
  have zero: "coerce_amount (sample_fields ''0'' ''amount'') = Fin 0"
    by (simp add: coerce_amount_def sample_fields_def literal_eval double_eval)
  have other: "check_customerId (sample_fields t ''customerId'') = Some ''c1''"
    "check_status (sample_fields t ''status'') = Some ''pending''" for t
    by (simp_all add: check_customerId_def check_status_def sample_fields_def)
  from nan invalid_amount_rejected
    [of "sample_fields ''abc''" sample_today "''i2''" "sample_world True" "''i1''"]
  obtain e1 where
    c1: "createInvoice (sample_fields ''abc'') sample_today ''i2'' (sample_world True)
          = (Rejected e1, sample_world True)"
    by blast
  from neg invalid_amount_rejected
    [of "sample_fields ''-5''" sample_today "''i2''" "sample_world True" "''i1''"]
  obtain e2 where
    c2: "createInvoice (sample_fields ''-5'') sample_today ''i2'' (sample_world True)
          = (Rejected e2, sample_world True)"
    by auto
  from zero invalid_amount_rejected
    [of "sample_fields ''0''" sample_today "''i2''" "sample_world True" "''i1''"]
  obtain e3 where
    c3: "updateInvoice ''i1'' (sample_fields ''0'') (sample_world True)
          = (Rejected e3, sample_world True)"
    by auto
  have "e1 = [''amount'']"
    using c1 nan by (simp add: createInvoice_def validate_def check_amount_def other
        greater_than_zero_def field_error_def)
  moreover have "e2 = [''amount'']"
    using c2 neg by (simp add: createInvoice_def validate_def check_amount_def other
        greater_than_zero_def field_error_def)
  moreover have "e3 = [''amount'']"
    using c3 zero by (simp add: updateInvoice_def validate_def check_amount_def other
        greater_than_zero_def field_error_def)
  ultimately show ?thesis using c1 c2 c3 nan neg zero by simp
qed

section \<open>Lookup by id\<close>

lemma fetchInvoiceById_unreachable: "\<not> reachable db \<Longrightarrow> fetchInvoiceById db id' = Inr None"
  by (simp add: fetchInvoiceById_def sql_invoice_by_id_def)

text \<open>
  C5: \<^verbatim>\<open>fetchInvoiceById\<close> returns the invoice with its amount divided by 100 when
  the row exists and \<^verbatim>\<open>undefined\<close> when it does not, but a failed query is caught,
  logged and not thrown again, so it returns \<^verbatim>\<open>undefined\<close> as well. On a store
  that is down and holds invoice \<^verbatim>\<open>i1\<close> the result is the result of an absent row
  on a store that is up; the list query on the same store throws from its catch block.
\<close>

theorem fetchInvoiceById_masks_store_error:
  "fetchInvoiceById (store (sample_world False)) ''i1'' = Inr None
   \<and> fetchInvoiceById \<lparr>reachable = True, customers = [], invoices = []\<rparr> ''i1'' = Inr None
   \<and> fetchInvoiceById (store (sample_world True)) ''i1''
       = Inr (Some \<lparr>form_id = ''i1'', form_customer_id = ''c1'', form_amount = Fin 45,
                     form_status = ''paid''\<rparr>)
   \<and> fetchFilteredInvoices (store (sample_world False)) [] (Fin 1)
       = Inl (Error ''Failed to fetch invoices.'')"
  by (simp add: fetchInvoiceById_def sql_invoice_by_id_def double_eval sample_world_def
      sample_invoice_def fetchFilteredInvoices_def sql_filtered_invoices_def)

section \<open>Failed writes\<close>

text \<open>
  C6: in each of the three mutations a failed write ends the mutation with the store's
  error and leaves the world as it was: no view has been marked stale and the caller has
  not been told to navigate.
\<close>

theorem failed_write_aborts:
  "(validate raw = Inr input
     \<and> sql_insert_invoice (store w) new_id (customerId input)
          (spec_round (js_mul (amount input) (Fin 100))) (status input) (iso_date today) = Inl e
     \<longrightarrow> createInvoice raw today new_id w = (Throw e, w))
   \<and> (validate raw = Inr input
     \<and> sql_update_invoice (store w) id' (customerId input)
          (spec_round (js_mul (amount input) (Fin 100))) (status input) = Inl e
     \<longrightarrow> updateInvoice id' raw w = (Throw e, w))
   \<and> (sql_delete_invoice (store w) id' = Inl e \<longrightarrow> deleteInvoice id' w = (Throw e, w))"
  by (simp add: createInvoice_def updateInvoice_def deleteInvoice_def Let_def)

theorem failed_write_aborts_witness:
  "createInvoice (sample_fields ''45.00'') sample_today ''i2'' (sample_world False)
     = (Throw DatabaseError, sample_world False)
   \<and> updateInvoice ''i1'' (sample_fields ''45.00'') (sample_world False)
     = (Throw DatabaseError, sample_world False)
   \<and> deleteInvoice ''i1'' (sample_world False) = (Throw DatabaseError, sample_world False)"
proof -
  let ?input = "\<lparr>customerId = ''c1'', amount = Fin 45, status = ''pending''\<rparr>"
  have n: "coerce_amount (sample_fields ''45.00'' ''amount'') = Fin 45"
    by (simp add: coerce_amount_def sample_fields_def literal_eval double_eval)
  have p: "validate (sample_fields ''45.00'') = Inr ?input"
    by (rule validate_ok) (simp_all add: n greater_than_zero_def, simp_all add: sample_fields_def)
  have down: "\<not> reachable (store (sample_world False))"
    by (simp add: sample_world_def)
  show ?thesis
    using failed_write_aborts [where raw = "sample_fields ''45.00''" and input = ?input
        and w = "sample_world False" and new_id = "''i2''" and today = sample_today
        and e = DatabaseError and id' = "''i1''"]
      p down
    by (simp add: sql_insert_invoice_def sql_update_invoice_def sql_delete_invoice_def
        del: js_mul.simps spec_round.simps)
qed

section \<open>Persisted amount and date\<close>

lemma sql_integer_of_int:
  "- 2147483648 \<le> cents \<Longrightarrow> cents \<le> 2147483647 \<Longrightarrow> sql_integer (Fin (of_int cents)) = Some cents"
  by (simp add: sql_integer_def)

lemma createInvoice_accepted:
  assumes "raw ''customerId'' = Some c" and "c \<noteq> []"
    and "coerce_amount (raw ''amount'') = Fin a" and "0 < a"
    and "raw ''status'' = Some s" and "s = ''pending'' \<or> s = ''paid''"
    and "reachable (store w)" and "valid_date today"
    and "spec_round (js_mul (Fin a) (Fin 100)) = Fin (of_int cents)"
    and "cents \<le> 2147483647"
  shows "createInvoice raw today new_id w =
           (Redirect invoice_list,
            \<lparr>store = (store w)\<lparr>invoices := invoices (store w) @
                 [\<lparr>inv_id = new_id, inv_customer_id = c, inv_amount = cents, inv_status = s,
                   inv_date = iso_date today\<rparr>]\<rparr>,
             stale = stale w @ [invoice_list]\<rparr>)"
proof -
  have v: "validate raw = Inr \<lparr>customerId = c, amount = Fin a, status = s\<rparr>"
    using assms(1-3) _ assms(5,6) by (rule validate_ok) (simp add: greater_than_zero_def assms(4))
  have "0 \<le> cents" using assms(4,9) by (rule spec_round_product_nonneg)
  then have i: "sql_integer (spec_round (js_mul (Fin a) (Fin 100))) = Some cents"
    using assms(10) by (simp only: assms(9) sql_integer_of_int)
  have d: "sql_date (iso_date today) = Some (iso_date today)"
    using assms(8) by (rule sql_date_iso_date)
  show ?thesis
    using assms(7) i d
    by (simp add: createInvoice_def v sql_insert_invoice_def invalidate_def
        del: js_mul.simps spec_round.simps)
qed



section \<open>Pagination\<close>

lemma fetchFilteredInvoices_first_page:
  "reachable db \<Longrightarrow>
   fetchFilteredInvoices db query (Fin 1) = Inr (take 6 (filtered_invoices_ordered db query))"
  by (simp add: fetchFilteredInvoices_def sql_filtered_invoices_def sql_bigint_def
      ITEMS_PER_PAGE_def to_double_0)

lemma sql_filtered_invoices_negative_offset:
  "less_than_zero offset \<Longrightarrow> sql_filtered_invoices db query limit offset = Inl DatabaseError"
  by (auto simp: sql_filtered_invoices_def sql_bigint_def less_than_zero_def floor_less_iff
      split: js_number.splits option.splits if_splits)

lemma fetchFilteredInvoices_sample:
  "fetchFilteredInvoices (store (sample_world True)) [] (Fin 1) =
     Inr [\<lparr>row_id = ''i1'', row_amount = 4500, row_date = ''2024-05-17'', row_status = ''paid'',
           row_name = ''Ada'', row_email = ''ada@example.com'', row_image_url = ''/ada.png''\<rparr>]"
proof -
  have "reachable (store (sample_world True))" by (simp add: sample_world_def)
  then show ?thesis
    by (simp add: fetchFilteredInvoices_first_page filtered_invoices_ordered_def
        invoices_join_customers_def invoice_filter_empty order_by_desc_def
        select_invoices_table_def sample_world_def sample_invoice_def sample_customer_def)
qed

lemma is_double_minus_one: "is_double (- 1)"
  by (simp add: is_double_def double_eval)

text \<open>
  C4, as stated, fails: the offset is \<^verbatim>\<open>(currentPage - 1) * ITEMS_PER_PAGE\<close>
  with no clamping. The request \<^verbatim>\<open>?page=-1\<close> reaches the function as the page
  number \<open>-1\<close>; the offset is \<open>-12\<close>, the statement is refused and the fetch throws,
  where page 1 returns the first page.
\<close>

theorem page_below_one_counterexample:
  "Page_currentPage (Some ''-1'') = Fin (- 1)
   \<and> js_mul (js_sub (Fin (- 1)) (Fin 1)) (Fin (of_int ITEMS_PER_PAGE)) = Fin (- 12)
   \<and> fetchFilteredInvoices (store (sample_world True)) [] (Fin (- 1))
       = Inl (Error ''Failed to fetch invoices.'')
   \<and> fetchFilteredInvoices (store (sample_world True)) [] (Fin 1) =
     Inr [\<lparr>row_id = ''i1'', row_amount = 4500, row_date = ''2024-05-17'', row_status = ''paid'',
           row_name = ''Ada'', row_email = ''ada@example.com'', row_image_url = ''/ada.png''\<rparr>]"
proof -
  have p: "Page_currentPage (Some ''-1'') = Fin (- 1)"
    by (simp add: Page_currentPage_def js_or_def literal_eval double_eval)
  have s: "js_sub (Fin (- 1)) (Fin 1) = Fin (- 2)"
    by (simp add: double_eval)
  have m: "js_mul (Fin (- 2)) (Fin 6) = Fin (- 12)"
    by (simp add: double_eval)
  have o: "js_mul (js_sub (Fin (- 1)) (Fin 1)) (Fin (of_int ITEMS_PER_PAGE)) = Fin (- 12)"
    by (simp only: s) (simp add: ITEMS_PER_PAGE_def m del: js_mul.simps)
  have "fetchFilteredInvoices (store (sample_world True)) [] (Fin (- 1))
       = Inl (Error ''Failed to fetch invoices.'')"
    by (simp add: fetchFilteredInvoices_def o sql_filtered_invoices_negative_offset
        less_than_zero_def del: js_mul.simps js_sub.simps)
  with p o fetchFilteredInvoices_sample show ?thesis by (simp del: js_mul.simps js_sub.simps)
qed

text \<open>
  C4, amended: for every query string and every page number below 1, a double or the
  negative infinity, \<^verbatim>\<open>fetchFilteredInvoices\<close> does not treat the page number as
  1. The offset \<open>(page - 1) * 6\<close> it computes is negative, the store refuses it and the
  fetch fails with \<^verbatim>\<open>Failed to fetch invoices.\<close>, on every store; on a
  reachable store page 1 returns the first six rows of the filtered list, newest first.
\<close>

theorem page_below_one_fails:
  assumes "currentPage = NegInf \<or> (\<exists>p. currentPage = Fin p \<and> is_double p \<and> p < 1)"
  shows "less_than_zero (js_mul (js_sub currentPage (Fin 1)) (Fin (of_int ITEMS_PER_PAGE)))
         \<and> fetchFilteredInvoices db query currentPage = Inl (Error ''Failed to fetch invoices.'')
         \<and> (reachable db \<longrightarrow>
              fetchFilteredInvoices db query (Fin 1)
                = Inr (take 6 (filtered_invoices_ordered db query))
              \<and> sorted_wrt (\<lambda>a b. row_date b \<le> row_date a)
                  (take 6 (filtered_invoices_ordered db query))
              \<and> fetchFilteredInvoices db query currentPage
                  \<noteq> fetchFilteredInvoices db query (Fin 1))"
proof -
  have neg: "less_than_zero (js_mul (js_sub currentPage (Fin 1)) (Fin (of_int ITEMS_PER_PAGE)))"
    using assms
  proof
    assume "currentPage = NegInf"
    then show ?thesis by (simp add: ITEMS_PER_PAGE_def less_than_zero_def)
  next
    assume "\<exists>p. currentPage = Fin p \<and> is_double p \<and> p < 1"
    then obtain p where "currentPage = Fin p" and "is_double p" and "p < 1" by blast
    then show ?thesis
      using offset_below_zero [of p]
      by (simp add: ITEMS_PER_PAGE_def del: js_mul.simps js_sub.simps)
  qed
  then have fail: "fetchFilteredInvoices db query currentPage
      = Inl (Error ''Failed to fetch invoices.'')"
    by (simp add: fetchFilteredInvoices_def sql_filtered_invoices_negative_offset
        del: js_mul.simps js_sub.simps)
  have "sorted_wrt (\<lambda>a b. row_date b \<le> row_date a) (take 6 (filtered_invoices_ordered db query))"
    using filtered_invoices_ordered_sorted by (rule sorted_wrt_take)
  with neg fail show ?thesis
    by (simp add: fetchFilteredInvoices_first_page del: js_mul.simps js_sub.simps)
qed

theorem page_below_one_fails_witness:
  "is_double (- 1) \<and> (- 1 :: rat) < 1
   \<and> less_than_zero (js_mul (js_sub (Fin (- 1)) (Fin 1)) (Fin (of_int ITEMS_PER_PAGE)))
   \<and> fetchFilteredInvoices (store (sample_world True)) [] (Fin (- 1))
       = Inl (Error ''Failed to fetch invoices.'')
   \<and> Page_currentPage (Some ''-Infinity'') = NegInf
   \<and> fetchFilteredInvoices (store (sample_world True)) [] NegInf
       = Inl (Error ''Failed to fetch invoices.'')
   \<and> fetchFilteredInvoices (store (sample_world True)) [] (Fin 1) =
     Inr [\<lparr>row_id = ''i1'', row_amount = 4500, row_date = ''2024-05-17'', row_status = ''paid'',
           row_name = ''Ada'', row_email = ''ada@example.com'', row_image_url = ''/ada.png''\<rparr>]"
proof -
  have i: "Page_currentPage (Some ''-Infinity'') = NegInf"
    by (simp add: Page_currentPage_def js_or_def literal_eval)
  have h: "\<exists>p. Fin (- 1) = Fin p \<and> is_double p \<and> p < 1"
    using is_double_minus_one by auto
  show ?thesis
    using page_below_one_fails [of "Fin (- 1)" "store (sample_world True)" "[]"] h
      page_below_one_fails [of NegInf "store (sample_world True)" "[]"]
      is_double_minus_one i fetchFilteredInvoices_sample
    by (simp del: js_mul.simps js_sub.simps)
qed

section \<open>Round trip of the amount\<close>

lemma fetchInvoiceById_appended:
  assumes "reachable db" and "new_id \<notin> inv_id ` set (invoices db)"
  shows "fetchInvoiceById
           (db\<lparr>invoices := invoices db @
               [\<lparr>inv_id = new_id, inv_customer_id = c, inv_amount = cents, inv_status = s,
                 inv_date = date\<rparr>]\<rparr>) new_id
         = Inr (Some \<lparr>form_id = new_id, form_customer_id = c,
                       form_amount = js_div (Fin (of_int cents)) (Fin 100), form_status = s\<rparr>)"
proof -
  have "filter (\<lambda>i. inv_id i = new_id) (invoices db) = []"
    using assms(2) by (auto simp: filter_empty_conv)
  then show ?thesis
    using assms(1) by (simp add: fetchInvoiceById_def sql_invoice_by_id_def del: js_div.simps)
qed

text \<open>
  C7: an invoice created with the amount \<^verbatim>\<open>45.00\<close> reads back as 45 dollars, and
  the two conversions are inverse to each other on prices. For every price of \<open>k\<close> whole
  cents that fits the \<^verbatim>\<open>INTEGER\<close> column, entered as the double nearest to
  \<open>k / 100\<close>, \<^verbatim>\<open>createInvoice\<close> stores exactly \<open>k\<close> cents, and
  \<^verbatim>\<open>fetchInvoiceById\<close> on the new row returns exactly the amount entered: the
  division by 100 at read time undoes the rounded multiplication by 100 at write time,
  and the other way round.
\<close>

theorem price_round_trip:
  assumes "raw ''customerId'' = Some c" and "c \<noteq> []"
    and "coerce_amount (raw ''amount'') = js_div (Fin (of_int k)) (Fin 100)"
    and "0 < k" and "k \<le> 2147483647"
    and "raw ''status'' = Some s" and "s = ''pending'' \<or> s = ''paid''"
    and "reachable (store w)" and "valid_date today"
    and "new_id \<notin> inv_id ` set (invoices (store w))"
  shows "\<exists>w'. createInvoice raw today new_id w = (Redirect invoice_list, w')
           \<and> invoices (store w') = invoices (store w) @
                 [\<lparr>inv_id = new_id, inv_customer_id = c, inv_amount = k, inv_status = s,
                   inv_date = iso_date today\<rparr>]
           \<and> fetchInvoiceById (store w') new_id
               = Inr (Some \<lparr>form_id = new_id, form_customer_id = c,
                             form_amount = coerce_amount (raw ''amount''), form_status = s\<rparr>)
           \<and> spec_round (js_mul (js_div (Fin (of_int k)) (Fin 100)) (Fin 100)) = Fin (of_int k)"
proof -
  from cents_round_trip [OF assms(4,5)] obtain a where
    a0: "0 < a" and a: "js_div (Fin (of_int k)) (Fin 100) = Fin a" and
    r: "spec_round (js_mul (Fin a) (Fin 100)) = Fin (of_int k)"
    by blast
  have n: "coerce_amount (raw ''amount'') = Fin a" by (simp only: assms(3) a)
  have c: "createInvoice raw today new_id w =
           (Redirect invoice_list,
            \<lparr>store = (store w)\<lparr>invoices := invoices (store w) @
                 [\<lparr>inv_id = new_id, inv_customer_id = c, inv_amount = k, inv_status = s,
                   inv_date = iso_date today\<rparr>]\<rparr>,
             stale = stale w @ [invoice_list]\<rparr>)"
    using assms(1,2) n a0 assms(6-9) r assms(5) by (rule createInvoice_accepted)
  have f: "fetchInvoiceById
           ((store w)\<lparr>invoices := invoices (store w) @
               [\<lparr>inv_id = new_id, inv_customer_id = c, inv_amount = k, inv_status = s,
                 inv_date = iso_date today\<rparr>]\<rparr>) new_id
         = Inr (Some \<lparr>form_id = new_id, form_customer_id = c,
                       form_amount = coerce_amount (raw ''amount''), form_status = s\<rparr>)"
    using fetchInvoiceById_appended [OF assms(8,10), of c k s "iso_date today"]
    by (simp only: assms(3))
  have "spec_round (js_mul (js_div (Fin (of_int k)) (Fin 100)) (Fin 100)) = Fin (of_int k)"
    by (simp only: a r)
  with c f show ?thesis by (simp del: js_mul.simps js_div.simps spec_round.simps)
qed

theorem price_round_trip_witness:
  "coerce_amount (sample_fields ''45.00'' ''amount'') = Fin 45
   \<and> js_div (Fin 4500) (Fin 100) = Fin 45
   \<and> spec_round (js_mul (Fin 45) (Fin 100)) = Fin 4500
   \<and> createInvoice (sample_fields ''45.00'') sample_today ''i2'' (sample_world True) =
     (Redirect ''/dashboard/invoices'',
      \<lparr>store = \<lparr>reachable = True, customers = [sample_customer],
                 invoices = [sample_invoice,
                   \<lparr>inv_id = ''i2'', inv_customer_id = ''c1'', inv_amount = 4500,
                    inv_status = ''pending'', inv_date = ''2024-05-17''\<rparr>]\<rparr>,
       stale = [''/dashboard/invoices'']\<rparr>)
   \<and> fetchInvoiceById
       \<lparr>reachable = True, customers = [sample_customer],
        invoices = [sample_invoice,
          \<lparr>inv_id = ''i2'', inv_customer_id = ''c1'', inv_amount = 4500,
           inv_status = ''pending'', inv_date = ''2024-05-17''\<rparr>]\<rparr> ''i2''
     = Inr (Some \<lparr>form_id = ''i2'', form_customer_id = ''c1'', form_amount = Fin 45,
                   form_status = ''pending''\<rparr>)"
proof -
  have n: "coerce_amount (sample_fields ''45.00'' ''amount'') = Fin 45"
    by (simp add: coerce_amount_def sample_fields_def literal_eval double_eval)
  have d: "js_div (Fin (of_int 4500)) (Fin 100) = Fin 45"
    by (simp add: double_eval)
  have nd: "coerce_amount (sample_fields ''45.00'' ''amount'')
      = js_div (Fin (of_int 4500)) (Fin 100)"
    by (simp only: n d)
  have m: "spec_round (js_mul (Fin 45) (Fin 100)) = Fin (of_int 4500)"
    by (simp add: double_eval)
  have c: "createInvoice (sample_fields ''45.00'') sample_today ''i2'' (sample_world True) =
     (Redirect ''/dashboard/invoices'',
      \<lparr>store = \<lparr>reachable = True, customers = [sample_customer],
                 invoices = [sample_invoice,
                   \<lparr>inv_id = ''i2'', inv_customer_id = ''c1'', inv_amount = 4500,
                    inv_status = ''pending'', inv_date = ''2024-05-17''\<rparr>]\<rparr>,
       stale = [''/dashboard/invoices'']\<rparr>)"
    using createInvoice_accepted [where raw = "sample_fields ''45.00''"
        and c = "''c1''" and a = 45 and s = "''pending''" and w = "sample_world True"
        and cents = 4500 and today = sample_today and new_id = "''i2''",
        OF _ _ n _ _ _ _ valid_date_sample m]
    by (simp add: sample_fields_def sample_world_def iso_date_sample invoice_list_def
        del: js_mul.simps spec_round.simps)
  from price_round_trip [where raw = "sample_fields ''45.00''" and c = "''c1''"
      and k = 4500 and s = "''pending''" and w = "sample_world True" and new_id = "''i2''"
      and today = sample_today, OF _ _ nd _ _ _ _ _ valid_date_sample]
  obtain w' where
    w': "createInvoice (sample_fields ''45.00'') sample_today ''i2'' (sample_world True)
       = (Redirect invoice_list, w')" and
    f: "fetchInvoiceById (store w') ''i2''
       = Inr (Some \<lparr>form_id = ''i2'', form_customer_id = ''c1'',
                     form_amount = coerce_amount (sample_fields ''45.00'' ''amount''),
                     form_status = ''pending''\<rparr>)"
    by (auto simp: sample_fields_def sample_world_def sample_invoice_def
        simp del: js_mul.simps js_div.simps spec_round.simps)
  from c w' f n d m show ?thesis
    by (simp del: js_mul.simps js_div.simps spec_round.simps)
qed

section \<open>Summary counts\<close>

text \<open>
  C9: \<^verbatim>\<open>fetchCardData\<close> never hands a null on. On every reachable store each of
  the two counts is the Number of the count's text and each of the two totals is
  \<^verbatim>\<open>formatCurrency\<close> of a string, never of null; when the invoices table is
  empty, where both \<^verbatim>\<open>SUM\<close> aggregates are null, the totals are
  \<^verbatim>\<open>formatCurrency('0')\<close> and the invoice count is \<open>0\<close>. On an unreachable
  store the function throws.
\<close>

theorem fetchCardData_coalesces:
  "(\<not> reachable db \<longrightarrow> fetchCardData formatCurrency db = Inl (Error ''Failed to card data.''))
   \<and> (reachable db \<longrightarrow>
        (\<exists>paid pending.
           fetchCardData formatCurrency db =
             Inr \<lparr>numberOfCustomers = to_double (of_nat (length (customers db))),
                  numberOfInvoices = to_double (of_nat (length (invoices db))),
                  totalPaidInvoices = formatCurrency (Str paid),
                  totalPendingInvoices = formatCurrency (Str pending)\<rparr>
           \<and> (invoices db = [] \<longrightarrow> paid = ''0'' \<and> pending = ''0'')))
   \<and> (reachable db \<and> invoices db = [] \<and> customers db = [] \<longrightarrow>
        fetchCardData formatCurrency db =
          Inr \<lparr>numberOfCustomers = Fin 0, numberOfInvoices = Fin 0,
               totalPaidInvoices = formatCurrency (Str ''0''),
               totalPendingInvoices = formatCurrency (Str ''0'')\<rparr>)"
  by (auto simp: fetchCardData_def sql_count_invoices_def sql_count_customers_def
      sql_invoice_status_def sum_case_status_def nullish_def StringToNumber_show_nat to_double_0)

theorem fetchCardData_coalesces_witness:
  "fetchCardData (\<lambda>v. case v of Null \<Rightarrow> ''null'' | Str s \<Rightarrow> CHR ''$'' # s)
      \<lparr>reachable = True, customers = [], invoices = []\<rparr>
     = Inr \<lparr>numberOfCustomers = Fin 0, numberOfInvoices = Fin 0,
            totalPaidInvoices = ''$0'', totalPendingInvoices = ''$0''\<rparr>
   \<and> fetchCardData (\<lambda>v. case v of Null \<Rightarrow> ''null'' | Str s \<Rightarrow> CHR ''$'' # s)
      \<lparr>reachable = False, customers = [], invoices = []\<rparr>
     = Inl (Error ''Failed to card data.'')"
  using fetchCardData_coalesces [of "\<lparr>reachable = True, customers = [], invoices = []\<rparr>"
      "\<lambda>v. case v of Null \<Rightarrow> ''null'' | Str s \<Rightarrow> CHR ''$'' # s"]
    fetchCardData_coalesces [of "\<lparr>reachable = False, customers = [], invoices = []\<rparr>"
      "\<lambda>v. case v of Null \<Rightarrow> ''null'' | Str s \<Rightarrow> CHR ''$'' # s"]
  by (simp add: to_double_0)

section \<open>Page count\<close>

lemma length_insert_desc: "length (insert_desc key r xs) = Suc (length xs)"
  by (induction xs) simp_all

lemma length_order_by_desc: "length (order_by_desc key xs) = length xs"
  by (induction xs) (simp_all add: order_by_desc_def length_insert_desc)

text \<open>The list before pagination has one row for each row the count statement counts.\<close>

lemma length_filtered_invoices_ordered:
  "length (filtered_invoices_ordered db query) =
     length (filter (invoice_filter query) (invoices_join_customers db))"
  by (simp add: filtered_invoices_ordered_def length_order_by_desc)

text \<open>
  C8: on a reachable store with \<open>n\<close> rows matching the query, the same rows the
  paginated list is cut from, \<^verbatim>\<open>fetchInvoicesPages\<close> returns
  \<open>ceil(n / 6)\<close>: the page count times the page size is at least \<open>n\<close>, and
  one page less times the page size is below \<open>n\<close>. The count is a Number, so
  \<open>n\<close> is taken below \<open>2^53\<close>, where every count is a double.
\<close>

theorem fetchInvoicesPages_ceiling:
  assumes "reachable db" and "n = length (filtered_invoices_ordered db query)" and "n < 2 ^ 53"
  shows "fetchInvoicesPages db query = Inr (Fin (of_int \<lceil>(of_nat n :: rat) / of_int ITEMS_PER_PAGE\<rceil>))
         \<and> int n \<le> \<lceil>(of_nat n :: rat) / of_int ITEMS_PER_PAGE\<rceil> * ITEMS_PER_PAGE
         \<and> (\<lceil>(of_nat n :: rat) / of_int ITEMS_PER_PAGE\<rceil> - 1) * ITEMS_PER_PAGE < int n"
proof -
  let ?pages = "\<lceil>(of_nat n :: rat) / of_int ITEMS_PER_PAGE\<rceil>"
  have count: "sql_count_filtered_invoices db query = Inr (show_nat n)"
    using assms(1,2) by (simp add: sql_count_filtered_invoices_def length_filtered_invoices_ordered)
  have "StringToNumber (show_nat n) = Fin (of_nat n)"
    using assms(3) by (simp add: StringToNumber_show_nat to_double_of_nat)
  then have "fetchInvoicesPages db query = Inr (Fin (of_int ?pages))"
    using Math_ceil_div_6 [OF assms(3)]
    by (simp add: fetchInvoicesPages_def count ITEMS_PER_PAGE_def del: js_div.simps Math_ceil.simps)
  moreover have "int n \<le> \<lceil>(of_nat n :: rat) / 6\<rceil> * 6
      \<and> (\<lceil>(of_nat n :: rat) / 6\<rceil> - 1) * 6 < int n"
  proof -
    define x :: rat where "x = of_nat n"
    define c :: int where "c = \<lceil>x / 6\<rceil>"
    have up: "x / 6 \<le> of_int c" and low: "of_int c - 1 < x / 6"
      unfolding c_def by linarith+
    have "x \<le> of_int (c * 6)" using up by simp
    then have "int n \<le> c * 6"
      unfolding x_def by (metis of_int_le_iff of_int_of_nat_eq)
    moreover have "of_int ((c - 1) * 6) < x" using low by simp
    then have "(c - 1) * 6 < int n"
      unfolding x_def by (metis of_int_less_iff of_int_of_nat_eq)
    ultimately show ?thesis by (simp add: c_def x_def)
  qed
  ultimately show ?thesis by (simp add: ITEMS_PER_PAGE_def)
qed

theorem fetchInvoicesPages_ceiling_witness:
  "fetchInvoicesPages (store (sample_world True)) [] = Inr (Fin 1)
   \<and> length (filtered_invoices_ordered (store (sample_world True)) []) = 1"
proof -
  have l: "length (filtered_invoices_ordered (store (sample_world True)) []) = 1"
    by (simp add: filtered_invoices_ordered_def invoices_join_customers_def invoice_filter_empty
        order_by_desc_def sample_world_def sample_invoice_def sample_customer_def)
  have r: "reachable (store (sample_world True))"
    by (simp add: sample_world_def)
  have c: "\<lceil>(1::rat) / 6\<rceil> = 1"
    by (rule ceiling_unique) simp_all
  show ?thesis
    using fetchInvoicesPages_ceiling [OF r l [symmetric]] l c
    by (simp add: ITEMS_PER_PAGE_def)
qed

end
